theory Spec2Isabelle
  imports Main
begin

section \<open>Python values and strings\<close>

text \<open>
  The bot is written in Python. A Python string is a sequence of Unicode code points:
  it is modelled as a list of natural numbers, one per code point, so that Uzbek, Russian
  and any other text is one element per character. A literal of the program is written
  \<open>str ''...''\<close>. Exceptions are values of the type \<open>error\<close>; a function that may raise
  returns \<open>error + 'a\<close>, with \<open>Inl\<close> for the exception.
\<close>

type_synonym pystr = "nat list"

definition str :: "string \<Rightarrow> pystr" where
  "str s = map of_char s"

datatype error = ValueError | TypeError | OverflowError | AttributeError

text \<open>
  A Python float is a sign, a mantissa and a binary exponent (the value
  \<open>\<plusminus> m * 2 ^ e\<close>), an infinity or a NaN. The values a price can take: \<open>None\<close>, a
  bool, an unbounded int, a float, a string, or any other object that \<open>float()\<close> rejects
  (a list, a dict), given with its truth value.
\<close>

datatype pyfloat = Finite bool nat int | Infinity bool | NaN

datatype pyval = PyNone | PyBool bool | PyInt int | PyFloat pyfloat | PyStr pystr
  | PyObject bool

text \<open>Truth value of a Python object, as tested by \<open>if price\<close> and \<open>x or 0\<close>.\<close>

fun truthy :: "pyval \<Rightarrow> bool" where
  "truthy PyNone = False"
| "truthy (PyBool b) = b"
| "truthy (PyInt n) = (n \<noteq> 0)"
| "truthy (PyFloat (Finite s m e)) = (m \<noteq> 0)"
| "truthy (PyFloat (Infinity s)) = True"
| "truthy (PyFloat NaN) = True"
| "truthy (PyStr s) = (s \<noteq> [])"
| "truthy (PyObject b) = b"

text \<open>
  The whitespace of \<open>str.split()\<close> and \<open>str.strip()\<close>, which is that of \<open>str.isspace\<close>:
  the code points of Unicode whose category is Zs or whose bidirectional class is WS, B
  or S. They are the control characters U+0009 to U+000D and U+001C to U+001F, the space,
  U+0085, U+00A0, U+1680, U+2000 to U+200A, U+2028, U+2029, U+202F, U+205F and U+3000.
\<close>

definition isspace :: "nat \<Rightarrow> bool" where
  "isspace c = (c \<in> set [0x09, 0x0A, 0x0B, 0x0C, 0x0D, 0x1C, 0x1D, 0x1E, 0x1F, 0x20,
                          0x85, 0xA0, 0x1680,
                          0x2000, 0x2001, 0x2002, 0x2003, 0x2004, 0x2005, 0x2006, 0x2007,
                          0x2008, 0x2009, 0x200A,
                          0x2028, 0x2029, 0x202F, 0x205F, 0x3000])"

text \<open>\<open>str.strip()\<close> removes the whitespace at both ends.\<close>

definition strip :: "pystr \<Rightarrow> pystr" where
  "strip s = rev (dropWhile isspace (rev (dropWhile isspace s)))"

text \<open>
  \<open>str.split()\<close> without arguments: the maximal runs of non-whitespace characters, in
  order. The first argument is the word being read.
\<close>

fun split_from :: "pystr \<Rightarrow> pystr \<Rightarrow> pystr list" where
  "split_from cur [] = (if cur = [] then [] else [cur])"
| "split_from cur (c # cs) =
     (if isspace c then (if cur = [] then split_from [] cs else cur # split_from [] cs)
      else split_from (cur @ [c]) cs)"

definition str_split :: "pystr \<Rightarrow> pystr list" where
  "str_split s = split_from [] s"

text \<open>\<open>sub in s\<close> on strings.\<close>

fun contains :: "pystr \<Rightarrow> pystr \<Rightarrow> bool" where
  "contains sub [] = (sub = [])"
| "contains sub (c # cs) = (take (length sub) (c # cs) = sub \<or> contains sub cs)"

text \<open>\<open>xs[-n:]\<close> for a positive \<open>n\<close>: the last \<open>n\<close> elements, all of them when there are fewer.\<close>

definition last_n :: "nat \<Rightarrow> 'a list \<Rightarrow> 'a list" where
  "last_n n xs = drop (length xs - n) xs"

section \<open>Price formatting\<close>

text \<open>Decimal digits of a natural number, and \<open>str\<close> of an int.\<close>

definition digit_char :: "nat \<Rightarrow> nat" where
  "digit_char d = str ''0123456789'' ! d"

fun dec_digits :: "nat \<Rightarrow> pystr" where
  "dec_digits n =
     (if n < 10 then [digit_char n] else dec_digits (n div 10) @ [digit_char (n mod 10)])"

declare dec_digits.simps [simp del]

definition str_int :: "int \<Rightarrow> pystr" where
  "str_int n = (if n < 0 then str ''-'' else []) @ dec_digits (nat \<bar>n\<bar>)"

text \<open>
  Rounding \<open>m / 2 ^ k\<close> to the nearest integer, ties to the even one: what the format
  \<open>.0f\<close> prints for a float, and what \<open>float()\<close> does to the bits of an int that do not
  fit the 53-bit mantissa.
\<close>

definition round_half_even :: "nat \<Rightarrow> nat \<Rightarrow> nat" where
  "round_half_even m k =
     (if k = 0 then m
      else let q = m div 2 ^ k; r = m mod 2 ^ k; half = 2 ^ (k - 1)
           in if r > half \<or> (r = half \<and> odd q) then q + 1 else q)"

text \<open>The number of bits of \<open>a\<close> beyond 53.\<close>

fun excess_bits :: "nat \<Rightarrow> nat" where
  "excess_bits a = (if a < 2 ^ 53 then 0 else 1 + excess_bits (a div 2))"

declare excess_bits.simps [simp del]

text \<open>
  \<open>float(n)\<close> for an int: the nearest double, and OverflowError
  (\<open>int too large to convert to float\<close>) when that would be \<open>2 ^ 1024\<close> or more.
\<close>

definition int_to_float :: "int \<Rightarrow> error + pyfloat" where
  "int_to_float n =
     (let a = nat \<bar>n\<bar>; sh = excess_bits a; q = round_half_even a sh
      in if 2 ^ 1024 \<le> q * 2 ^ sh then Inl OverflowError
         else Inr (Finite (n < 0) q (int sh)))"

text \<open>
  \<open>float(x)\<close>. Parsing a string is the interpreter's work and is a parameter:
  \<open>parse s = None\<close> stands for ValueError.
\<close>

fun py_float :: "(pystr \<Rightarrow> pyfloat option) \<Rightarrow> pyval \<Rightarrow> error + pyfloat" where
  "py_float parse PyNone = Inl TypeError"
| "py_float parse (PyBool b) = Inr (Finite False (if b then 1 else 0) 0)"
| "py_float parse (PyInt n) = int_to_float n"
| "py_float parse (PyFloat x) = Inr x"
| "py_float parse (PyStr s) = (case parse s of None \<Rightarrow> Inl ValueError | Some x \<Rightarrow> Inr x)"
| "py_float parse (PyObject b) = Inl TypeError"

text \<open>The format \<open>,.0f\<close>: no decimals, a comma between groups of three digits.\<close>

fun group3 :: "pystr \<Rightarrow> pystr" where
  "group3 (a # b # c # d # ds) = a # b # c # of_char CHR '','' # group3 (d # ds)"
| "group3 ds = ds"

definition thousands :: "pystr \<Rightarrow> pystr" where
  "thousands ds = rev (group3 (rev ds))"

definition nearest_int :: "nat \<Rightarrow> int \<Rightarrow> nat" where
  "nearest_int m e = (if 0 \<le> e then m * 2 ^ nat e else round_half_even m (nat (- e)))"

fun format_f0 :: "pyfloat \<Rightarrow> pystr" where
  "format_f0 (Finite s m e) = (if s then str ''-'' else []) @ thousands (dec_digits (nearest_int m e))"
| "format_f0 (Infinity s) = (if s then str ''-inf'' else str ''inf'')"
| "format_f0 NaN = str ''nan''"

text \<open>\<open>.replace(",", " ")\<close>\<close>

definition replace_commas :: "pystr \<Rightarrow> pystr" where
  "replace_commas s = map (\<lambda>c. if c = of_char CHR '','' then of_char CHR '' '' else c) s"

text \<open>
  \<open>ProductService.format_price\<close>: the try block converts a truthy price with \<open>float()\<close>
  (a falsy one becomes 0) and formats it; the handler catches ValueError and TypeError
  only.
\<close>

definition format_price :: "(pystr \<Rightarrow> pyfloat option) \<Rightarrow> pyval \<Rightarrow> error + pystr" where
  "format_price parse price =
     (case (if truthy price then py_float parse price else Inr (Finite False 0 0)) of
        Inr price_float \<Rightarrow> Inr (replace_commas (format_f0 price_float))
      | Inl ValueError \<Rightarrow> Inr (str ''0'')
      | Inl TypeError \<Rightarrow> Inr (str ''0'')
      | Inl e \<Rightarrow> Inl e)"

text \<open>
  The words of the specification for a price that converts: the number with no decimals,
  its digits in groups of three separated by spaces. Groups after the first have three
  digits, zeros included. A float that is not finite has no digits: Python prints its
  name.
\<close>

definition pad3 :: "nat \<Rightarrow> pystr" where
  "pad3 n = [digit_char (n div 100), digit_char (n div 10 mod 10), digit_char (n mod 10)]"

fun spaced_thousands :: "nat \<Rightarrow> pystr" where
  "spaced_thousands n =
     (if n < 1000 then dec_digits n
      else spaced_thousands (n div 1000) @ str '' '' @ pad3 (n mod 1000))"

declare spaced_thousands.simps [simp del]

fun spaced_number :: "pyfloat \<Rightarrow> pystr" where
  "spaced_number (Finite s m e) = (if s then str ''-'' else []) @ spaced_thousands (nearest_int m e)"
| "spaced_number (Infinity s) = (if s then str ''-inf'' else str ''inf'')"
| "spaced_number NaN = str ''nan''"

section \<open>Product records and the product block of the prompt\<close>

text \<open>
  A row of the catalog, as the queries of \<open>database.py\<close> select it: every column is
  present; the price and the stock hold whatever value the row has (\<open>PyNone\<close> for NULL).
\<close>

record product =
  pid :: int
  title :: pystr
  price :: pyval
  stock :: pyval

text \<open>\<open>x > 0\<close>: TypeError when \<open>x\<close> is not a number.\<close>

fun greater_than_zero :: "pyval \<Rightarrow> error + bool" where
  "greater_than_zero PyNone = Inl TypeError"
| "greater_than_zero (PyBool b) = Inr b"
| "greater_than_zero (PyInt n) = Inr (0 < n)"
| "greater_than_zero (PyFloat (Finite s m e)) = Inr (\<not> s \<and> m \<noteq> 0)"
| "greater_than_zero (PyFloat (Infinity s)) = Inr (\<not> s)"
| "greater_than_zero (PyFloat NaN) = Inr False"
| "greater_than_zero (PyStr s) = Inl TypeError"
| "greater_than_zero (PyObject b) = Inl TypeError"

fun join :: "pystr \<Rightarrow> pystr list \<Rightarrow> pystr" where
  "join sep [] = []"
| "join sep [x] = x"
| "join sep (x # y # ys) = x @ sep @ join sep (y # ys)"

text \<open>
  \<open>AIService._format_products_context\<close>, lines 86 to 91: the price of one product,
  \<open>float(p.get('price', 0) or 0)\<close> formatted, \<open>"0"\<close> on ValueError and TypeError.
\<close>

definition price_text :: "(pystr \<Rightarrow> pyfloat option) \<Rightarrow> pyval \<Rightarrow> error + pystr" where
  "price_text parse v =
     (case py_float parse (if truthy v then v else PyInt 0) of
        Inr price_val \<Rightarrow> Inr (replace_commas (format_f0 price_val))
      | Inl ValueError \<Rightarrow> Inr (str ''0'')
      | Inl TypeError \<Rightarrow> Inr (str ''0'')
      | Inl e \<Rightarrow> Inl e)"

text \<open>The two stock marks are the code points U+2705 and U+274C, then the word.\<close>

definition product_line :: "(pystr \<Rightarrow> pyfloat option) \<Rightarrow> product \<Rightarrow> error + pystr" where
  "product_line parse p =
     (case price_text parse (price p) of
        Inl e \<Rightarrow> Inl e
      | Inr pr \<Rightarrow>
          (case greater_than_zero (stock p) of
             Inl e \<Rightarrow> Inl e
           | Inr available \<Rightarrow>
               Inr (str ''- ID: '' @ str_int (pid p) @ str '' | '' @ title p @ str '' | '' @ pr
                    @ str '' so'm | ''
                    @ (if available then [0x2705] @ str '' Mavjud''
                       else [0x274C] @ str '' Tugagan''))))"

fun product_lines :: "(pystr \<Rightarrow> pyfloat option) \<Rightarrow> product list \<Rightarrow> error + pystr list" where
  "product_lines parse [] = Inr []"
| "product_lines parse (p # ps) =
     (case product_line parse p of
        Inl e \<Rightarrow> Inl e
      | Inr l \<Rightarrow> (case product_lines parse ps of Inl e \<Rightarrow> Inl e | Inr ls \<Rightarrow> Inr (l # ls)))"

definition format_products_context ::
    "(pystr \<Rightarrow> pyfloat option) \<Rightarrow> product list \<Rightarrow> error + pystr" where
  "format_products_context parse products =
     (if products = [] then Inr (str ''Hozircha mos mahsulotlar topilmadi.'')
      else case product_lines parse (take 5 products) of
             Inl e \<Rightarrow> Inl e
           | Inr lines \<Rightarrow> Inr (join [0x0A] lines))"

section \<open>The assistant: contexts, the model call and its retries\<close>

text \<open>
  One entry of a user's context, \<open>{"role": ..., "text": ...}\<close>, and the dictionary
  \<open>user_contexts\<close> from user ids to lists of entries.
\<close>

record turn =
  turn_role :: pystr
  turn_text :: pystr

type_synonym user_contexts = "int \<rightharpoonup> turn list"

text \<open>
  The language model is outside the program. A call either returns a response, whose
  \<open>text\<close> may be \<open>None\<close>, or raises an exception with the message \<open>str(e)\<close>.
\<close>

datatype call_result = Returns "pystr option" | Raises pystr

text \<open>
  The try block up to \<open>response.text.strip()\<close>: the stripped answer, or the message of
  the exception raised (AttributeError when the text is \<open>None\<close>).
\<close>

fun response_text :: "call_result \<Rightarrow> pystr + pystr" where
  "response_text (Raises error_msg) = Inl error_msg"
| "response_text (Returns None) =
     Inl ([0x27] @ str ''NoneType'' @ [0x27] @ str '' object has no attribute ''
          @ [0x27] @ str ''strip'' @ [0x27])"
| "response_text (Returns (Some t)) = Inr (strip t)"

definition max_retries :: nat where
  "max_retries = 4"

definition base_delay :: nat where
  "base_delay = 3"

definition is_rate_limit :: "pystr \<Rightarrow> bool" where
  "is_rate_limit error_msg =
     (contains (str ''429'') error_msg \<or> contains (str ''ResourceExhausted'') error_msg)"

definition technical_error_text :: pystr where
  "technical_error_text =
     (str ''Kechirasiz, hozirda texnik xatolik yuz berdi. Iltimos, birozdan so'ng qayta urinib ko'ring.'')"

definition no_answer_text :: pystr where
  "no_answer_text = str ''Kechirasiz, javob olishning imkoni bo'lmadi.''"

text \<open>
  Lines 277 to 284: the entry of the user is created when missing, the message and the
  answer are appended, and the last 10 entries are kept. No await stands between these
  statements.
\<close>

definition update_context :: "user_contexts \<Rightarrow> int \<Rightarrow> pystr \<Rightarrow> pystr \<Rightarrow> user_contexts" where
  "update_context ctxs user_id user_message ai_response =
     (let history = (case ctxs user_id of None \<Rightarrow> [] | Some h \<Rightarrow> h);
          appended = history @ [\<lparr>turn_role = str ''user'', turn_text = user_message\<rparr>]
                             @ [\<lparr>turn_role = str ''model'', turn_text = ai_response\<rparr>]
      in ctxs(user_id \<mapsto> last_n 10 appended))"

definition clear_user_context :: "user_contexts \<Rightarrow> int \<Rightarrow> user_contexts" where
  "clear_user_context ctxs user_id = (if user_id \<in> dom ctxs then ctxs(user_id := None) else ctxs)"

text \<open>
  What an invocation does at its awaits: a model call with the system instruction and the
  contents sent, or a sleep of so many seconds. The trace of an invocation pairs each
  await with the contexts as they are while the coroutine is suspended there.
\<close>

datatype event = Generate pystr "turn list" | Sleep nat

record run =
  result :: "error + pystr \<times> product list"
  contexts :: user_contexts
  trace :: "(event \<times> user_contexts) list"

definition after :: "(event \<times> user_contexts) list \<Rightarrow> run \<Rightarrow> run" where
  "after evs r = r\<lparr>trace := evs @ trace r\<rparr>"

text \<open>
  The retry loop, lines 262 to 307, from attempt number \<open>attempt\<close> on. \<open>generate i\<close> is
  what the model call of attempt \<open>i\<close> does.
\<close>

function retry_loop ::
    "(nat \<Rightarrow> call_result) \<Rightarrow> pystr \<Rightarrow> turn list \<Rightarrow> int \<Rightarrow> pystr \<Rightarrow> product list
      \<Rightarrow> nat \<Rightarrow> user_contexts \<Rightarrow> run" where
  "retry_loop generate system_prompt contents user_id user_message products attempt ctxs =
     (if attempt < max_retries then
        (case response_text (generate attempt) of
           Inr ai_response \<Rightarrow>
             \<lparr>result = Inr (ai_response, products),
              contexts = update_context ctxs user_id user_message ai_response,
              trace = [(Generate system_prompt contents, ctxs)]\<rparr>
         | Inl error_msg \<Rightarrow>
             if is_rate_limit error_msg \<and> attempt < max_retries - 1 then
               after [(Generate system_prompt contents, ctxs),
                      (Sleep (base_delay * 2 ^ attempt), ctxs)]
                 (retry_loop generate system_prompt contents user_id user_message products
                    (attempt + 1) ctxs)
             else if attempt = max_retries - 1 then
               \<lparr>result = Inr (technical_error_text, []), contexts = ctxs,
                trace = [(Generate system_prompt contents, ctxs)]\<rparr>
             else
               after [(Generate system_prompt contents, ctxs)]
                 (retry_loop generate system_prompt contents user_id user_message products
                    (attempt + 1) ctxs))
      else \<lparr>result = Inr (no_answer_text, []), contexts = ctxs, trace = []\<rparr>)"
  by pat_completeness auto
termination
  by (relation "measure (\<lambda>(g, s, c, u, m, p, attempt, x). max_retries - attempt)") auto

declare retry_loop.simps [simp del]

text \<open>
  \<open>AIService.get_response\<close>. The system prompt is built from the knowledge base and the
  category names of the database, both outside this model: \<open>build_system_prompt\<close> is
  a parameter. An exception of \<open>_format_products_context\<close> is raised to the caller
  before any model call.
\<close>

definition get_response ::
    "(pystr \<Rightarrow> pyfloat option) \<Rightarrow> (pystr \<Rightarrow> pystr) \<Rightarrow> (nat \<Rightarrow> call_result)
      \<Rightarrow> user_contexts \<Rightarrow> int \<Rightarrow> pystr \<Rightarrow> product list option \<Rightarrow> run" where
  "get_response parse build_system_prompt generate ctxs user_id user_message products_context =
     (let products = (case products_context of None \<Rightarrow> [] | Some ps \<Rightarrow> ps)
      in case format_products_context parse products of
           Inl e \<Rightarrow> \<lparr>result = Inl e, contexts = ctxs, trace = []\<rparr>
         | Inr products_str \<Rightarrow>
             (let system_prompt = build_system_prompt products_str;
                  user_history = last_n 5 (case ctxs user_id of None \<Rightarrow> [] | Some h \<Rightarrow> h);
                  contents = user_history
                             @ [\<lparr>turn_role = str ''user'', turn_text = user_message\<rparr>]
              in retry_loop generate system_prompt contents user_id user_message products 0
                   ctxs))"

text \<open>Reading a trace: the model calls made and the delays slept, in order.\<close>

fun is_call :: "event \<Rightarrow> bool" where
  "is_call (Generate s c) = True"
| "is_call (Sleep d) = False"

fun delay_of :: "event \<Rightarrow> nat list" where
  "delay_of (Generate s c) = []"
| "delay_of (Sleep d) = [d]"

definition attempts_made :: "run \<Rightarrow> nat" where
  "attempts_made r = length (filter is_call (map fst (trace r)))"

definition sleep_delays :: "run \<Rightarrow> nat list" where
  "sleep_delays r = concat (map (delay_of \<circ> fst) (trace r))"

text \<open>
  The operations that touch \<open>user_contexts\<close>: a call of \<open>get_response\<close> (from the
  chat, search and Instagram handlers) and \<open>clear_user_context\<close> (from the start
  command). A history of the store is a list of them, run from the empty dictionary of
  \<open>AIService.__init__\<close>.
\<close>

datatype operation =
  Respond int pystr "product list option" "nat \<Rightarrow> call_result"
  | Clear int

fun apply_operation ::
    "(pystr \<Rightarrow> pyfloat option) \<Rightarrow> (pystr \<Rightarrow> pystr) \<Rightarrow> user_contexts \<Rightarrow> operation
      \<Rightarrow> user_contexts" where
  "apply_operation parse build ctxs (Respond user_id user_message products_context generate) =
     contexts (get_response parse build generate ctxs user_id user_message products_context)"
| "apply_operation parse build ctxs (Clear user_id) = clear_user_context ctxs user_id"

definition run_operations ::
    "(pystr \<Rightarrow> pyfloat option) \<Rightarrow> (pystr \<Rightarrow> pystr) \<Rightarrow> operation list \<Rightarrow> user_contexts" where
  "run_operations parse build ops = foldl (apply_operation parse build) Map.empty ops"

text \<open>The entries a context holds when it is well formed: user, model, user, model, ...\<close>

fun alternating :: "turn list \<Rightarrow> bool" where
  "alternating [] = True"
| "alternating [x] = False"
| "alternating (x # y # rest) =
     (turn_role x = str ''user'' \<and> turn_role y = str ''model'' \<and> alternating rest)"

text \<open>One exchange as the success path stores it, with the answer stripped.\<close>

definition exchange :: "pystr \<times> pystr \<Rightarrow> turn list" where
  "exchange x = [\<lparr>turn_role = str ''user'', turn_text = fst x\<rparr>,
                 \<lparr>turn_role = str ''model'', turn_text = strip (snd x)\<rparr>]"

text \<open>A call of \<open>get_response\<close> without products whose first model call answers.\<close>

definition answered :: "int \<Rightarrow> pystr \<times> pystr \<Rightarrow> operation" where
  "answered user_id x = Respond user_id (fst x) None (\<lambda>attempt. Returns (Some (snd x)))"

section \<open>Extracting the search parameters\<close>

text \<open>
  The dictionary of search parameters, with the fields and types the extraction prompt
  asks the model for. A missing key reads as \<open>None\<close> (\<open>params.get\<close>).
\<close>

record search_params =
  search_query :: "pystr option"
  translated_keywords :: "pystr option"
  min_price :: pyval
  max_price :: pyval
  category_hint :: "pystr option"
  is_product_search :: bool

text \<open>\<open>str.find\<close> and \<open>str.rfind\<close> of one character (-1 when absent), and a slice.\<close>

fun find_from :: "nat \<Rightarrow> nat \<Rightarrow> pystr \<Rightarrow> int" where
  "find_from i c [] = - 1"
| "find_from i c (x # xs) = (if x = c then int i else find_from (i + 1) c xs)"

definition find :: "nat \<Rightarrow> pystr \<Rightarrow> int" where
  "find c s = find_from 0 c s"

definition rfind :: "nat \<Rightarrow> pystr \<Rightarrow> int" where
  "rfind c s = (let k = find c (rev s) in if k = - 1 then - 1 else int (length s) - 1 - k)"

definition slice :: "pystr \<Rightarrow> int \<Rightarrow> int \<Rightarrow> pystr" where
  "slice s start stop = drop (nat start) (take (nat stop) s)"

text \<open>
  The try block of \<open>AIService.extract_search_params\<close>: the parameters, or the message
  of the exception raised. The model is called with a fixed prompt around the user's
  message; \<open>json_loads\<close> is \<open>json.loads\<close> followed by the reading of the fields, \<open>None\<close>
  when it raises.
\<close>

definition try_extract ::
    "(pystr \<Rightarrow> call_result) \<Rightarrow> (pystr \<Rightarrow> search_params option) \<Rightarrow> pystr
      \<Rightarrow> pystr + search_params" where
  "try_extract generate json_loads user_message =
     (case response_text (generate user_message) of
        Inl error_msg \<Rightarrow> Inl error_msg
      | Inr text \<Rightarrow>
          (let start = find (of_char CHR ''{'') text; stop = rfind (of_char CHR ''}'') text
           in if start \<noteq> - 1 \<and> stop \<noteq> - 1 then
                (case json_loads (slice text start (stop + 1)) of
                   None \<Rightarrow> Inl (str ''JSONDecodeError'')
                 | Some params \<Rightarrow> Inr params)
              else Inl (str ''No JSON found'')))"

text \<open>\<open>AIService.extract_search_params\<close>, with the handler of lines 199 to 219.\<close>

definition extract_search_params ::
    "(pystr \<Rightarrow> call_result) \<Rightarrow> (pystr \<Rightarrow> search_params option) \<Rightarrow> pystr
      \<Rightarrow> search_params" where
  "extract_search_params generate json_loads user_message =
     (case try_extract generate json_loads user_message of
        Inr params \<Rightarrow> params
      | Inl e \<Rightarrow>
          if length (str_split user_message) \<le> 3 then
            \<lparr>search_query = Some user_message, translated_keywords = None,
             min_price = PyNone, max_price = PyNone, category_hint = None,
             is_product_search = True\<rparr>
          else
            \<lparr>search_query = Some user_message, translated_keywords = None,
             min_price = PyNone, max_price = PyNone, category_hint = None,
             is_product_search = False\<rparr>)"

section \<open>Searching the catalog in two languages\<close>

text \<open>
  \<open>str.lower\<close> is the interpreter's: it maps every cased letter of Unicode (Latin,
  Cyrillic and the rest) to lower case by the tables of the Unicode database. It is a
  parameter of the search, \<open>lower\<close>, and nothing is assumed of it.
\<close>

text \<open>
  \<open>ProductService.search_products\<close> with the keyword, the two price bounds and the
  limit is the lookup in the catalog. The database behind it is outside this model: the
  lookup is a parameter, and a call is logged with its arguments.
\<close>

type_synonym lookup = "pystr option \<times> pyval \<times> pyval \<times> nat"

type_synonym catalog = "pystr option \<Rightarrow> pyval \<Rightarrow> pyval \<Rightarrow> nat \<Rightarrow> product list"

text \<open>
  Lines 142 to 145: the identifiers of the first result are collected once, and a
  product of the second result is appended when its identifier is not among them.
\<close>

definition merge_results :: "product list \<Rightarrow> product list \<Rightarrow> product list" where
  "merge_results products more_products =
     (let existing_ids = set (map pid products)
      in foldl (\<lambda>merged p. if pid p \<notin> existing_ids then merged @ [p] else merged)
           products more_products)"

text \<open>
  \<open>ProductService.ai_search\<close> from line 116 on, for the parameters extracted: the
  products, the flag, and the lookups made.
\<close>

definition retrieve ::
    "(pystr \<Rightarrow> pystr) \<Rightarrow> catalog \<Rightarrow> search_params \<Rightarrow> (product list \<times> bool) \<times> lookup list" where
  "retrieve lower search_products params =
     (if \<not> is_product_search params then (([], False), [])
      else
        let query = search_query params;
            translated = translated_keywords params;
            products = search_products query (min_price params) (max_price params) 5;
            first = (query, min_price params, max_price params, 5)
        in if (case (translated, query) of
                 (Some t, Some q) \<Rightarrow> t \<noteq> [] \<and> q \<noteq> [] \<and> lower t \<noteq> lower q
               | _ \<Rightarrow> False)
           then
             let more_products =
                   search_products translated (min_price params) (max_price params) 5;
                 second = (translated, min_price params, max_price params, 5)
             in ((merge_results products more_products, True), [first, second])
           else ((products, True), [first]))"

definition ai_search ::
    "(pystr \<Rightarrow> call_result) \<Rightarrow> (pystr \<Rightarrow> search_params option) \<Rightarrow> (pystr \<Rightarrow> pystr)
      \<Rightarrow> catalog \<Rightarrow> pystr \<Rightarrow> (product list \<times> bool) \<times> lookup list" where
  "ai_search generate json_loads lower search_products user_message =
     retrieve lower search_products (extract_search_params generate json_loads user_message)"

section \<open>Example inputs\<close>

text \<open>
  What \<open>float()\<close> returns on the strings of the examples (12.5 is \<open>25 * 2 ^ -1\<close>), a
  system prompt that is the product block alone, a model that is always rate limited,
  one that always fails with a server error, and one whose first call fails with a
  server error and whose second call answers.
\<close>

definition example_parse :: "pystr \<Rightarrow> pyfloat option" where
  "example_parse s = (if s = str ''12.5'' then Some (Finite False 25 (- 1)) else None)"

definition example_prompt :: "pystr \<Rightarrow> pystr" where
  "example_prompt products_str = products_str"

definition always_limited :: "nat \<Rightarrow> call_result" where
  "always_limited attempt = Raises (str ''429 RESOURCE_EXHAUSTED'')"

definition server_down :: "nat \<Rightarrow> call_result" where
  "server_down attempt = Raises (str ''500 Internal Server Error'')"

definition fails_once :: "nat \<Rightarrow> call_result" where
  "fails_once attempt =
     (if attempt = 0 then Raises (str ''500 Internal Server Error'')
      else Returns (Some (str ''Salom'')))"

text \<open>
  Russian words, by their code points: the word for a kettle in small letters and with a
  capital first letter, and the three-word utterance "bread and sugar".
\<close>

definition kettle_ru :: pystr where
  "kettle_ru = [0x447, 0x430, 0x439, 0x43D, 0x438, 0x43A]"

definition kettle_ru_capital :: pystr where
  "kettle_ru_capital = [0x427, 0x430, 0x439, 0x43D, 0x438, 0x43A]"

definition bread_and_sugar :: pystr where
  "bread_and_sugar = [0x445, 0x43B, 0x435, 0x431, 0x20, 0x438, 0x20,
                      0x441, 0x430, 0x445, 0x430, 0x440]"

text \<open>
  What \<open>str.lower\<close> does to the letters A to Z and to the Cyrillic capital letters from
  U+0410 to U+042F: both ranges move up by 32. The other code points of the examples
  are not capital letters.
\<close>

definition example_lower :: "pystr \<Rightarrow> pystr" where
  "example_lower s =
     map (\<lambda>c. if (0x41 \<le> c \<and> c \<le> 0x5A) \<or> (0x410 \<le> c \<and> c \<le> 0x42F) then c + 32 else c) s"

text \<open>Three products and two catalogs; the second returns one row twice.\<close>

definition kettle :: product where
  "kettle = \<lparr>pid = 7, title = str ''Choynak'', price = PyInt 150000, stock = PyInt 3\<rparr>"

definition cup :: product where
  "cup = \<lparr>pid = 8, title = str ''Piyola'', price = PyStr (str ''12.5''), stock = PyInt 40\<rparr>"

definition bowl :: product where
  "bowl = \<lparr>pid = 9, title = str ''Kosa'', price = PyNone, stock = PyInt 1\<rparr>"

definition example_catalog :: catalog where
  "example_catalog query lo hi limit =
     (if query = Some (str ''choynak'') then [kettle, cup]
      else if query = Some kettle_ru then [bowl, kettle]
      else [])"


text \<open>
  Twenty exchanges of one user, six other exchanges to put in the place of the six oldest,
  and a short history of two users.
\<close>

definition twenty :: "(pystr \<times> pystr) list" where
  "twenty = map (\<lambda>n. (str ''savol '' @ dec_digits n, str ''javob '' @ dec_digits n))
     [1, 2, 3, 4, 5, 6, 7, 8, 9, 10, 11, 12, 13, 14, 15, 16, 17, 18, 19, 20]"

definition other_six :: "(pystr \<times> pystr) list" where
  "other_six = map (\<lambda>n. (str ''boshqa '' @ dec_digits n, str ''javob'')) [1, 2, 3, 4, 5, 6]"

definition three_operations :: "operation list" where
  "three_operations =
     [answered 1 (str ''salom'', str ''Salom''), answered 2 (str ''narx'', str ''150 000''),
      Clear 1]"

text \<open>
  For the search: a model that is down, one that chats instead of answering in JSON, a
  JSON reader that rejects every text, the parameters of a search for a kettle in Uzbek
  with its Russian translation, and the parameters of a search in Russian whose
  translation is the same word with a capital letter.
\<close>

definition extraction_down :: "pystr \<Rightarrow> call_result" where
  "extraction_down user_message = Raises (str ''503 Service Unavailable'')"

definition chatty :: "pystr \<Rightarrow> call_result" where
  "chatty user_message = Returns (Some (str ''Kechirasiz, tushunmadim.''))"

definition no_json :: "pystr \<Rightarrow> search_params option" where
  "no_json s = None"

definition kettle_params :: search_params where
  "kettle_params = \<lparr>search_query = Some (str ''choynak''), translated_keywords = Some kettle_ru,
     min_price = PyNone, max_price = PyNone, category_hint = None, is_product_search = True\<rparr>"

definition same_word_params :: search_params where
  "same_word_params = \<lparr>search_query = Some kettle_ru,
     translated_keywords = Some kettle_ru_capital,
     min_price = PyNone, max_price = PyNone, category_hint = None, is_product_search = True\<rparr>"

section \<open>Properties of the retry loop\<close>

lemma result_after [simp]: "result (after evs r) = result r"
  by (simp add: after_def)

lemma contexts_after [simp]: "contexts (after evs r) = contexts r"
  by (simp add: after_def)

lemma trace_after [simp]: "trace (after evs r) = evs @ trace r"
  by (simp add: after_def)

lemma retry_loop_answer:
  assumes "attempt < max_retries" and "response_text (g attempt) = Inr a"
  shows "retry_loop g sp cs u m ps attempt ctxs =
     \<lparr>result = Inr (a, ps), contexts = update_context ctxs u m a,
      trace = [(Generate sp cs, ctxs)]\<rparr>"
  using assms by (subst retry_loop.simps) simp

lemma retry_loop_again:
  assumes "attempt < max_retries - 1" and "response_text (g attempt) = Inl e"
  shows "retry_loop g sp cs u m ps attempt ctxs =
     after ((Generate sp cs, ctxs)
            # (if is_rate_limit e then [(Sleep (base_delay * 2 ^ attempt), ctxs)] else []))
       (retry_loop g sp cs u m ps (attempt + 1) ctxs)"
  using assms by (subst retry_loop.simps) simp

lemma retry_loop_give_up:
  assumes "attempt = max_retries - 1" and "response_text (g attempt) = Inl e"
  shows "retry_loop g sp cs u m ps attempt ctxs =
     \<lparr>result = Inr (technical_error_text, []), contexts = ctxs,
      trace = [(Generate sp cs, ctxs)]\<rparr>"
  using assms by (subst retry_loop.simps) (simp add: max_retries_def)

lemma retry_loop_snapshots:
  "(e, c) \<in> set (trace (retry_loop g sp cs u m ps attempt ctxs)) \<Longrightarrow> c = ctxs"
proof (induction g sp cs u m ps attempt ctxs rule: retry_loop.induct)
  case (1 g sp cs u m ps attempt ctxs)
  from "1.prems" show ?case
    by (subst (asm) retry_loop.simps) (auto split: if_splits sum.splits dest: "1.IH")
qed

lemma retry_loop_all_fail:
  assumes "\<forall>k<max_retries. response_text (g k) = Inl (msg k)"
  shows "retry_loop g sp cs u m ps 0 ctxs =
     \<lparr>result = Inr (technical_error_text, []), contexts = ctxs,
      trace = (Generate sp cs, ctxs) # (if is_rate_limit (msg 0) then [(Sleep 3, ctxs)] else [])
            @ (Generate sp cs, ctxs) # (if is_rate_limit (msg 1) then [(Sleep 6, ctxs)] else [])
            @ (Generate sp cs, ctxs) # (if is_rate_limit (msg 2) then [(Sleep 12, ctxs)] else [])
            @ [(Generate sp cs, ctxs)]\<rparr>"
proof -
  from assms have m: "response_text (g 0) = Inl (msg 0)" "response_text (g 1) = Inl (msg 1)"
    "response_text (g 2) = Inl (msg 2)" "response_text (g 3) = Inl (msg 3)"
    by (simp_all add: max_retries_def)
  have l3: "retry_loop g sp cs u m ps 3 ctxs =
      \<lparr>result = Inr (technical_error_text, []), contexts = ctxs, trace = [(Generate sp cs, ctxs)]\<rparr>"
    using m(4) by (simp add: retry_loop_give_up [where g = g and attempt = 3] max_retries_def)
  have l2: "retry_loop g sp cs u m ps 2 ctxs =
      after ((Generate sp cs, ctxs) # (if is_rate_limit (msg 2) then [(Sleep 12, ctxs)] else []))
        (retry_loop g sp cs u m ps 3 ctxs)"
    using m(3) retry_loop_again [where g = g and attempt = 2 and e = "msg 2" and sp = sp
        and cs = cs and u = u and m = m and ps = ps and ctxs = ctxs]
    by (simp add: max_retries_def base_delay_def numeral_2_eq_2 numeral_3_eq_3)
  have l1: "retry_loop g sp cs u m ps 1 ctxs =
      after ((Generate sp cs, ctxs) # (if is_rate_limit (msg 1) then [(Sleep 6, ctxs)] else []))
        (retry_loop g sp cs u m ps 2 ctxs)"
    using m(2) retry_loop_again [where g = g and attempt = 1 and e = "msg 1" and sp = sp
        and cs = cs and u = u and m = m and ps = ps and ctxs = ctxs]
    by (simp add: max_retries_def base_delay_def numeral_2_eq_2 numeral_3_eq_3)
  have l0: "retry_loop g sp cs u m ps 0 ctxs =
      after ((Generate sp cs, ctxs) # (if is_rate_limit (msg 0) then [(Sleep 3, ctxs)] else []))
        (retry_loop g sp cs u m ps 1 ctxs)"
    using m(1) retry_loop_again [where g = g and attempt = 0 and e = "msg 0" and sp = sp
        and cs = cs and u = u and m = m and ps = ps and ctxs = ctxs]
    by (simp add: max_retries_def base_delay_def numeral_2_eq_2 numeral_3_eq_3)
  show ?thesis
    unfolding l0 l1 l2 l3 by (simp add: after_def)
qed

lemma retry_loop_first_answer:
  assumes "k < max_retries" and "\<forall>j<k. \<exists>e. response_text (g j) = Inl e"
    and "response_text (g k) = Inr a"
  shows "result (retry_loop g sp cs u m ps 0 ctxs) = Inr (a, ps) \<and>
         contexts (retry_loop g sp cs u m ps 0 ctxs) = update_context ctxs u m a"
proof -
  have step: "s \<le> k \<Longrightarrow> result (retry_loop g sp cs u m ps s ctxs) = Inr (a, ps) \<and>
         contexts (retry_loop g sp cs u m ps s ctxs) = update_context ctxs u m a" for s
  proof (induction "k - s" arbitrary: s)
    case 0
    then have "s = k" by simp
    with assms show ?case
      by (simp add: retry_loop_answer)
  next
    case (Suc d)
    then have lt: "s < k" and d: "d = k - (s + 1)" and le: "s + 1 \<le> k" by simp_all
    from lt assms(2) obtain e where e: "response_text (g s) = Inl e" by blast
    from lt assms(1) have s: "s < max_retries - 1" by simp
    from Suc.hyps(1) [OF d le] show ?case
      by (simp add: retry_loop_again [where g = g and attempt = s and e = e, OF s e])
  qed
  from step [of 0] show ?thesis by simp
qed

text \<open>Some attempt answers, or all four raise.\<close>

lemma attempts_cases:
  obtains (answer) k a where "k < max_retries" "\<forall>j<k. \<exists>e. response_text (g j) = Inl e"
      "response_text (g k) = Inr a"
  | (fail) msg where "\<forall>k<max_retries. response_text (g k) = Inl (msg k)"
proof (cases "\<exists>k<max_retries. \<exists>a. response_text (g k) = Inr a")
  case True
  define k where "k = (LEAST k. k < max_retries \<and> (\<exists>a. response_text (g k) = Inr a))"
  from True have P: "k < max_retries \<and> (\<exists>a. response_text (g k) = Inr a)"
    unfolding k_def by (rule LeastI_ex [of "\<lambda>k. k < max_retries \<and> (\<exists>a. response_text (g k) = Inr a)"]) 
  then obtain a where a: "response_text (g k) = Inr a" by blast
  have "\<forall>j<k. \<exists>e. response_text (g j) = Inl e"
  proof (intro allI impI)
    fix j assume j: "j < k"
    then have "\<not> (j < max_retries \<and> (\<exists>a. response_text (g j) = Inr a))"
      unfolding k_def by (rule not_less_Least)
    with j P have "\<not> (\<exists>a. response_text (g j) = Inr a)" by simp
    then show "\<exists>e. response_text (g j) = Inl e"
      by (cases "response_text (g j)") auto
  qed
  with P a show ?thesis by (auto intro: answer)
next
  case False
  then have "\<forall>k<max_retries. response_text (g k) = Inl (projl (response_text (g k)))"
    by (metis sum.exhaust_sel)
  then show ?thesis by (rule fail [of "\<lambda>k. projl (response_text (g k))"])
qed


lemma get_response_built:
  assumes "format_products_context parse (case pc of None \<Rightarrow> [] | Some ps \<Rightarrow> ps) = Inr s"
  shows "get_response parse build g ctxs u m pc =
     retry_loop g (build s)
       (last_n 5 (case ctxs u of None \<Rightarrow> [] | Some h \<Rightarrow> h) @ [\<lparr>turn_role = str ''user'', turn_text = m\<rparr>])
       u m (case pc of None \<Rightarrow> [] | Some ps \<Rightarrow> ps) 0 ctxs"
  using assms by (simp add: get_response_def)

lemma get_response_not_built:
  assumes "format_products_context parse (case pc of None \<Rightarrow> [] | Some ps \<Rightarrow> ps) = Inl e"
  shows "get_response parse build g ctxs u m pc = \<lparr>result = Inl e, contexts = ctxs, trace = []\<rparr>"
  using assms by (simp add: get_response_def)

lemma format_no_products [simp]:
  "format_products_context parse [] = Inr (str ''Hozircha mos mahsulotlar topilmadi.'')"
  by (simp add: format_products_context_def)

section \<open>The retry bound\<close>

text \<open>
  Claim C1. When the product block of the prompt is built, so that model calls are made,
  and every model call raises an error whose message contains \<open>429\<close> or
  \<open>ResourceExhausted\<close>, \<open>get_response\<close> calls the model exactly 4 times, sleeps 3, 6 and
  12 seconds between the calls (the base delay 3, doubled at each attempt), returns the
  apology \<open>technical_error_text\<close> with an empty product list, and leaves the contexts as
  they were.
\<close>

theorem rate_limited_four_attempts:
  assumes "format_products_context parse (case products_context of None \<Rightarrow> [] | Some ps \<Rightarrow> ps)
             = Inr products_str"
    and "\<forall>attempt. \<exists>error_msg. generate attempt = Raises error_msg \<and> is_rate_limit error_msg"
  shows "attempts_made (get_response parse build generate ctxs user_id user_message products_context) = 4
    \<and> sleep_delays (get_response parse build generate ctxs user_id user_message products_context)
        = [3, 6, 12]
    \<and> [3, 6, 12] = map (\<lambda>attempt. base_delay * 2 ^ attempt) [0, 1, 2]
    \<and> map (is_call \<circ> fst)
         (trace (get_response parse build generate ctxs user_id user_message products_context))
        = [True, False, True, False, True, False, True]
    \<and> result (get_response parse build generate ctxs user_id user_message products_context)
        = Inr (technical_error_text, [])
    \<and> contexts (get_response parse build generate ctxs user_id user_message products_context)
        = ctxs"
proof -
  define msg where "msg k = (case generate k of Raises e \<Rightarrow> e | Returns t \<Rightarrow> [])" for k
  from assms(2) have lim: "is_rate_limit (msg k)" and raised: "generate k = Raises (msg k)" for k
    by (metis call_result.simps(6) msg_def)+
  then have "\<forall>k<max_retries. response_text (generate k) = Inl (msg k)"
    by simp
  from retry_loop_all_fail [OF this] show ?thesis
    by (simp add: get_response_built [OF assms(1)] lim attempts_made_def sleep_delays_def
        base_delay_def)
qed

theorem rate_limited_four_attempts_witness:
  "format_products_context example_parse [] = Inr (str ''Hozircha mos mahsulotlar topilmadi.'')
   \<and> (\<forall>attempt. \<exists>error_msg. always_limited attempt = Raises error_msg \<and> is_rate_limit error_msg)
   \<and> attempts_made (get_response example_parse example_prompt always_limited Map.empty 1 (str ''salom'') None) = 4
   \<and> sleep_delays (get_response example_parse example_prompt always_limited Map.empty 1 (str ''salom'') None)
       = [3, 6, 12]
   \<and> result (get_response example_parse example_prompt always_limited Map.empty 1 (str ''salom'') None)
       = Inr (technical_error_text, [])"
proof -
  have built: "format_products_context example_parse (case None of None \<Rightarrow> [] | Some ps \<Rightarrow> ps)
     = Inr (str ''Hozircha mos mahsulotlar topilmadi.'')"
    by simp
  have limited: "\<forall>attempt. \<exists>error_msg. always_limited attempt = Raises error_msg \<and> is_rate_limit error_msg"
    by (simp add: always_limited_def is_rate_limit_def str_def)
  from rate_limited_four_attempts [OF built limited, of example_prompt Map.empty 1 "(str ''salom'')"]
    built limited
  show ?thesis by simp
qed

section \<open>The contexts during and after a call\<close>

text \<open>
  Claim C4. In every invocation of \<open>get_response\<close> the contexts are unmodified at every
  await (every model call and every sleep, so during every failed or retried attempt).
  When an attempt answers after all earlier ones raised, the contexts of the user become
  the old entries followed by the user's message and then the model's answer, cut to
  the last 10, in one step, and the answer is returned with the products given. The
  contexts differ from the initial ones only in that case: no state holds the user's
  message without the answer.
\<close>

theorem contexts_change_only_on_success:
  "(\<forall>(e, snapshot) \<in> set (trace (get_response parse build generate ctxs user_id user_message
                                    products_context)). snapshot = ctxs)
   \<and> (\<forall>k<max_retries. \<forall>ai_response products_str.
          format_products_context parse (case products_context of None \<Rightarrow> [] | Some ps \<Rightarrow> ps)
            = Inr products_str
          \<and> response_text (generate k) = Inr ai_response
          \<and> (\<forall>j<k. \<exists>error_msg. response_text (generate j) = Inl error_msg)
          \<longrightarrow> contexts (get_response parse build generate ctxs user_id user_message
                          products_context)
               = ctxs(user_id \<mapsto>
                   last_n 10 ((case ctxs user_id of None \<Rightarrow> [] | Some h \<Rightarrow> h)
                              @ [\<lparr>turn_role = str ''user'', turn_text = user_message\<rparr>,
                                 \<lparr>turn_role = str ''model'', turn_text = ai_response\<rparr>]))
              \<and> result (get_response parse build generate ctxs user_id user_message
                          products_context)
                 = Inr (ai_response, case products_context of None \<Rightarrow> [] | Some ps \<Rightarrow> ps))
   \<and> (contexts (get_response parse build generate ctxs user_id user_message products_context)
         \<noteq> ctxs
       \<longrightarrow> (\<exists>k<max_retries. \<exists>ai_response.
              response_text (generate k) = Inr ai_response
              \<and> (\<forall>j<k. \<exists>error_msg. response_text (generate j) = Inl error_msg)))"
  (is "?snap \<and> ?success \<and> ?only")
proof (intro conjI)
  show ?snap
  proof (cases "format_products_context parse
                  (case products_context of None \<Rightarrow> [] | Some ps \<Rightarrow> ps)")
    case (Inl e)
    then show ?thesis by (simp add: get_response_not_built)
  next
    case (Inr s)
    then show ?thesis
      by (auto simp: get_response_built [OF Inr] dest: retry_loop_snapshots)
  qed
next
  show ?success
  proof (intro allI impI, elim conjE)
    fix k a s
    assume k: "k < max_retries" and built: "format_products_context parse
        (case products_context of None \<Rightarrow> [] | Some ps \<Rightarrow> ps) = Inr s"
      and a: "response_text (generate k) = Inr a"
      and before: "\<forall>j<k. \<exists>error_msg. response_text (generate j) = Inl error_msg"
    from retry_loop_first_answer [OF k before a]
    show "contexts (get_response parse build generate ctxs user_id user_message products_context)
               = ctxs(user_id \<mapsto>
                   last_n 10 ((case ctxs user_id of None \<Rightarrow> [] | Some h \<Rightarrow> h)
                              @ [\<lparr>turn_role = str ''user'', turn_text = user_message\<rparr>,
                                 \<lparr>turn_role = str ''model'', turn_text = a\<rparr>]))
              \<and> result (get_response parse build generate ctxs user_id user_message
                          products_context)
                 = Inr (a, case products_context of None \<Rightarrow> [] | Some ps \<Rightarrow> ps)"
      by (simp add: get_response_built [OF built] update_context_def)
  qed
next
  show ?only
  proof (cases "format_products_context parse
                  (case products_context of None \<Rightarrow> [] | Some ps \<Rightarrow> ps)")
    case (Inl e)
    then show ?thesis by (simp add: get_response_not_built)
  next
    case (Inr s)
    show ?thesis
    proof (cases rule: attempts_cases [of generate])
      case (answer k a)
      then show ?thesis by blast
    next
      case (fail msg)
      from retry_loop_all_fail [OF fail] show ?thesis
        by (simp add: get_response_built [OF Inr])
    qed
  qed
qed

theorem contexts_change_only_on_success_witness:
  "response_text (fails_once 0) = Inl (str ''500 Internal Server Error'')
   \<and> response_text (fails_once 1) = Inr (str ''Salom'')
   \<and> contexts (get_response example_parse example_prompt fails_once Map.empty 1 (str ''salom'') None)
       = [1 \<mapsto> [\<lparr>turn_role = str ''user'', turn_text = str ''salom''\<rparr>,
                 \<lparr>turn_role = str ''model'', turn_text = str ''Salom''\<rparr>]]
   \<and> result (get_response example_parse example_prompt fails_once Map.empty 1 (str ''salom'') None)
       = Inr (str ''Salom'', [])
   \<and> snd ` set (trace (get_response example_parse example_prompt fails_once Map.empty 1
                         (str ''salom'') None)) \<subseteq> {Map.empty}"
proof -
  have first: "response_text (fails_once 0) = Inl (str ''500 Internal Server Error'')"
    by (simp add: fails_once_def)
  have answer: "response_text (fails_once 1) = Inr (str ''Salom'')"
    by (simp add: fails_once_def strip_def isspace_def str_def)
  from first have before: "\<forall>j<1. \<exists>error_msg. response_text (fails_once j) = Inl error_msg"
    by simp
  note inst = contexts_change_only_on_success [of example_parse example_prompt fails_once
      Map.empty 1 "(str ''salom'')" None]
  from inst have snap: "snd ` set (trace (get_response example_parse example_prompt fails_once
      Map.empty 1 (str ''salom'') None)) \<subseteq> {Map.empty}"
    by auto
  from inst [THEN conjunct2, THEN conjunct1, rule_format, of 1
      "(str ''Hozircha mos mahsulotlar topilmadi.'')" "(str ''Salom'')"] answer before
  have "contexts (get_response example_parse example_prompt fails_once Map.empty 1 (str ''salom'') None)
       = [1 \<mapsto> [\<lparr>turn_role = str ''user'', turn_text = str ''salom''\<rparr>,
                 \<lparr>turn_role = str ''model'', turn_text = str ''Salom''\<rparr>]]
     \<and> result (get_response example_parse example_prompt fails_once Map.empty 1 (str ''salom'') None)
       = Inr (str ''Salom'', [])"
    by (simp add: max_retries_def last_n_def)
  with first answer snap show ?thesis by blast
qed

section \<open>Errors of the model call\<close>

text \<open>
  Claim C5, as the code has it. When the product block of the prompt is built and each of
  the four attempts raises an error, of whatever class, \<open>get_response\<close> returns the
  apology \<open>technical_error_text\<close> with an empty product list, raises nothing and leaves
  the contexts as they were. All four attempts are made: an error on one of the first
  three attempts is followed by a sleep only when it is a rate-limit error, and by the
  next attempt in either case.
\<close>

theorem fallback_when_every_attempt_fails:
  assumes "format_products_context parse (case products_context of None \<Rightarrow> [] | Some ps \<Rightarrow> ps)
             = Inr products_str"
    and "\<forall>attempt<max_retries. response_text (generate attempt) = Inl (error_msg attempt)"
  shows "result (get_response parse build generate ctxs user_id user_message products_context)
        = Inr (technical_error_text, [])
    \<and> contexts (get_response parse build generate ctxs user_id user_message products_context)
        = ctxs
    \<and> attempts_made (get_response parse build generate ctxs user_id user_message products_context)
        = max_retries
    \<and> sleep_delays (get_response parse build generate ctxs user_id user_message products_context)
        = concat (map (\<lambda>attempt. if is_rate_limit (error_msg attempt)
                                  then [base_delay * 2 ^ attempt] else []) [0, 1, 2])"
  using retry_loop_all_fail [OF assms(2)]
  by (simp add: get_response_built [OF assms(1)] attempts_made_def sleep_delays_def
      base_delay_def max_retries_def)

theorem fallback_when_every_attempt_fails_witness:
  "format_products_context example_parse [] = Inr (str ''Hozircha mos mahsulotlar topilmadi.'')
   \<and> (\<forall>attempt. response_text (server_down attempt) = Inl (str ''500 Internal Server Error''))
   \<and> result (get_response example_parse example_prompt server_down Map.empty 1 (str ''salom'') None)
       = Inr (technical_error_text, [])
   \<and> attempts_made (get_response example_parse example_prompt server_down Map.empty 1 (str ''salom'')
                      None) = 4
   \<and> sleep_delays (get_response example_parse example_prompt server_down Map.empty 1 (str ''salom'')
                     None) = []"
proof -
  have built: "format_products_context example_parse (case None of None \<Rightarrow> [] | Some ps \<Rightarrow> ps)
     = Inr (str ''Hozircha mos mahsulotlar topilmadi.'')"
    by simp
  have fails: "\<forall>attempt<max_retries. response_text (server_down attempt)
      = Inl ((\<lambda>attempt. (str ''500 Internal Server Error'')) attempt)"
    by (simp add: server_down_def)
  have raised: "\<forall>attempt. response_text (server_down attempt) = Inl (str ''500 Internal Server Error'')"
    by (simp add: server_down_def)
  from fallback_when_every_attempt_fails [OF built fails, of example_prompt Map.empty 1 "(str ''salom'')"]
    raised
  show ?thesis
    by (simp add: is_rate_limit_def str_def max_retries_def)
qed

text \<open>
  An error that is not a rate-limit error does not end the invocation: after a server
  error on the first attempt the second attempt answers, and the answer is returned.
\<close>

theorem other_error_is_retried_counterexample:
  "fails_once 0 = Raises (str ''500 Internal Server Error'')
   \<and> \<not> is_rate_limit (str ''500 Internal Server Error'')
   \<and> result (get_response example_parse example_prompt fails_once Map.empty 1 (str ''salom'') None)
       = Inr (str ''Salom'', [])
   \<and> result (get_response example_parse example_prompt fails_once Map.empty 1 (str ''salom'') None)
       \<noteq> Inr (technical_error_text, [])"
proof -
  have first: "\<forall>j<1. \<exists>e. response_text (fails_once j) = Inl e"
    by (simp add: fails_once_def)
  have second: "response_text (fails_once 1) = Inr (str ''Salom'')"
    by (simp add: fails_once_def strip_def isspace_def str_def)
  have "1 < max_retries"
    by (simp add: max_retries_def)
  from retry_loop_first_answer [OF this first second]
  have "result (get_response example_parse example_prompt fails_once Map.empty 1 (str ''salom'') None)
       = Inr (str ''Salom'', [])"
    by (simp add: get_response_def)
  then show ?thesis
    by (simp add: fails_once_def is_rate_limit_def str_def technical_error_text_def)
qed

section \<open>Properties of the contexts\<close>

lemma length_last_n: "length (last_n n xs) = min n (length xs)"
  by (simp add: last_n_def)

lemma last_n_last_n_append: "last_n n (last_n n xs @ ys) = last_n n (xs @ ys)"
proof (cases "n \<le> length xs")
  case True
  then have "length ys + length xs - n = length xs + length ys - n" by simp
  with True show ?thesis by (simp add: last_n_def)
next
  case False
  then show ?thesis by (simp add: last_n_def)
qed

lemma alternating_append_pair:
  "alternating h \<Longrightarrow> turn_role x = str ''user'' \<Longrightarrow> turn_role y = str ''model''
    \<Longrightarrow> alternating (h @ [x, y])"
  by (induction h rule: alternating.induct) simp_all

lemma alternating_even: "alternating h \<Longrightarrow> even (length h)"
  by (induction h rule: alternating.induct) simp_all

lemma alternating_drop: "alternating h \<Longrightarrow> even n \<Longrightarrow> alternating (drop n h)"
proof (induction h arbitrary: n rule: alternating.induct)
  case 1
  then show ?case by simp
next
  case (2 x)
  then show ?case by simp
next
  case (3 x y rest)
  show ?case
  proof (cases "n = 0")
    case True
    with 3 show ?thesis by simp
  next
    case False
    with \<open>even n\<close> obtain k where k: "n = Suc (Suc k)" "even k"
      by (cases n; cases "n - 1") auto
    with 3 show ?thesis by simp
  qed
qed

lemma alternating_last_n: "alternating h \<Longrightarrow> even n \<Longrightarrow> alternating (last_n n h)"
  unfolding last_n_def by (rule alternating_drop) (simp_all add: alternating_even)

lemma alternating_roles:
  "alternating h \<Longrightarrow> i < length h
    \<Longrightarrow> turn_role (h ! i) = (if even i then str ''user'' else str ''model'')"
proof (induction h arbitrary: i rule: alternating.induct)
  case (3 x y rest)
  then show ?case
    by (cases i; cases "i - 1") auto
qed simp_all

text \<open>The invariant of the store: every context alternates and has at most 10 entries.\<close>

lemma update_context_invariant:
  assumes "\<forall>user h. ctxs user = Some h \<longrightarrow> alternating h \<and> length h \<le> 10"
    and "update_context ctxs u m a user = Some h"
  shows "alternating h \<and> length h \<le> 10"
proof (cases "user = u")
  case True
  have "alternating (case ctxs u of None \<Rightarrow> [] | Some h \<Rightarrow> h)"
    using assms(1) by (cases "ctxs u") simp_all
  then have "alternating (last_n 10 ((case ctxs u of None \<Rightarrow> [] | Some h \<Rightarrow> h)
      @ [\<lparr>turn_role = str ''user'', turn_text = m\<rparr>, \<lparr>turn_role = str ''model'', turn_text = a\<rparr>]))"
    by (intro alternating_last_n alternating_append_pair) simp_all
  with True assms(2) show ?thesis
    by (auto simp: update_context_def length_last_n)
next
  case False
  with assms show ?thesis by (simp add: update_context_def)
qed

lemma retry_loop_contexts:
  "contexts (retry_loop g sp cs u m ps attempt ctxs) = ctxs
   \<or> (\<exists>a. contexts (retry_loop g sp cs u m ps attempt ctxs) = update_context ctxs u m a)"
proof (induction g sp cs u m ps attempt ctxs rule: retry_loop.induct)
  case (1 g sp cs u m ps attempt ctxs)
  note eq = retry_loop.simps [of g sp cs u m ps attempt ctxs]
  show ?case
  proof (cases "attempt < max_retries")
    case False
    then show ?thesis by (simp add: eq)
  next
    case True
    show ?thesis
    proof (cases "response_text (g attempt)")
      case (Inr a)
      from retry_loop_answer [where g = g, OF True Inr]
      have "contexts (retry_loop g sp cs u m ps attempt ctxs) = update_context ctxs u m a"
        by simp
      then show ?thesis by blast
    next
      case (Inl e)
      show ?thesis
      proof (cases "attempt = max_retries - 1")
        case last: True
        from retry_loop_give_up [where g = g and e = e, OF last Inl] show ?thesis by simp
      next
        case False
        with True have lt: "attempt < max_retries - 1" by simp
        have "contexts (retry_loop g sp cs u m ps (attempt + 1) ctxs) = ctxs
          \<or> (\<exists>a. contexts (retry_loop g sp cs u m ps (attempt + 1) ctxs)
                  = update_context ctxs u m a)"
        proof (cases "is_rate_limit e")
          case True
          with lt have "is_rate_limit e \<and> attempt < max_retries - 1" by simp
          from "1.IH"(1) [OF \<open>attempt < max_retries\<close> Inl this] show ?thesis .
        next
          case no: False
          then have "\<not> (is_rate_limit e \<and> attempt < max_retries - 1)" by simp
          from "1.IH"(2) [OF \<open>attempt < max_retries\<close> Inl this False] show ?thesis .
        qed
        then show ?thesis
          by (simp add: retry_loop_again [where g = g and e = e, OF lt Inl])
      qed
    qed
  qed
qed

lemma get_response_contexts:
  "contexts (get_response parse build g ctxs u m pc) = ctxs
   \<or> (\<exists>a. contexts (get_response parse build g ctxs u m pc) = update_context ctxs u m a)"
  using retry_loop_contexts
  by (cases "format_products_context parse (case pc of None \<Rightarrow> [] | Some ps \<Rightarrow> ps)")
     (simp_all add: get_response_built get_response_not_built)

lemma apply_operation_invariant:
  assumes "\<forall>user h. ctxs user = Some h \<longrightarrow> alternating h \<and> length h \<le> 10"
  shows "\<forall>user h. apply_operation parse build ctxs op user = Some h
           \<longrightarrow> alternating h \<and> length h \<le> 10"
proof (cases op)
  case (Respond u m pc g)
  from get_response_contexts [of parse build g ctxs u m pc] show ?thesis
  proof
    assume "contexts (get_response parse build g ctxs u m pc) = ctxs"
    with assms Respond show ?thesis by simp
  next
    assume "\<exists>a. contexts (get_response parse build g ctxs u m pc) = update_context ctxs u m a"
    then obtain a where "contexts (get_response parse build g ctxs u m pc)
        = update_context ctxs u m a" ..
    with Respond update_context_invariant [OF assms] show ?thesis by simp
  qed
next
  case (Clear u)
  with assms show ?thesis by (simp add: clear_user_context_def)
qed

lemma foldl_invariant:
  assumes "\<forall>user h. ctxs user = Some h \<longrightarrow> alternating h \<and> length h \<le> 10"
  shows "\<forall>user h. foldl (apply_operation parse build) ctxs ops user = Some h
           \<longrightarrow> alternating h \<and> length h \<le> 10"
  using assms
proof (induction ops arbitrary: ctxs)
  case Nil
  then show ?case by simp
next
  case (Cons op ops)
  from Cons.IH [OF apply_operation_invariant [OF Cons.prems]] show ?case by simp
qed

lemma run_operations_invariant:
  "run_operations parse build ops user = Some h \<Longrightarrow> alternating h \<and> length h \<le> 10"
  using foldl_invariant [of Map.empty parse build ops] by (simp add: run_operations_def)

text \<open>Exchanges that are answered at once.\<close>

lemma apply_answered:
  "apply_operation parse build ctxs (answered u x)
     = ctxs(u \<mapsto> last_n 10 ((case ctxs u of None \<Rightarrow> [] | Some h \<Rightarrow> h) @ exchange x))"
proof -
  have "response_text (Returns (Some (snd x))) = Inr (strip (snd x))" by simp
  then show ?thesis
    by (simp add: answered_def get_response_def
        retry_loop_answer [where attempt = 0 and a = "strip (snd x)"] max_retries_def
        update_context_def exchange_def)
qed

lemma foldl_answered:
  "xs \<noteq> [] \<Longrightarrow> foldl (apply_operation parse build) ctxs (map (answered u) xs)
     = ctxs(u \<mapsto> last_n 10 ((case ctxs u of None \<Rightarrow> [] | Some h \<Rightarrow> h)
                              @ concat (map exchange xs)))"
proof (induction xs arbitrary: ctxs)
  case Nil
  then show ?case by simp
next
  case (Cons x xs)
  show ?case
  proof (cases "xs = []")
    case True
    then show ?thesis by (simp add: apply_answered)
  next
    case False
    have "foldl (apply_operation parse build) ctxs (map (answered u) (x # xs))
        = foldl (apply_operation parse build) (apply_operation parse build ctxs (answered u x))
            (map (answered u) xs)"
      by simp
    also have "\<dots> = (apply_operation parse build ctxs (answered u x))(u \<mapsto> last_n 10
        ((case apply_operation parse build ctxs (answered u x) u of None \<Rightarrow> [] | Some h \<Rightarrow> h)
         @ concat (map exchange xs)))"
      by (rule Cons.IH [OF False])
    also have "\<dots> = ctxs(u \<mapsto> last_n 10 ((case ctxs u of None \<Rightarrow> [] | Some h \<Rightarrow> h)
                              @ concat (map exchange (x # xs))))"
      by (simp add: apply_answered last_n_last_n_append)
    finally show ?thesis .
  qed
qed

lemma length_exchanges: "length (concat (map exchange xs)) = 2 * length xs"
  by (induction xs) (simp_all add: exchange_def)

lemma drop_exchanges: "drop (2 * k) (concat (map exchange xs)) = concat (map exchange (drop k xs))"
proof (induction xs arbitrary: k)
  case Nil
  then show ?case by simp
next
  case (Cons x xs)
  show ?case
  proof (cases k)
    case 0
    then show ?thesis by simp
  next
    case (Suc j)
    with Cons.IH [of j] show ?thesis by (simp add: exchange_def)
  qed
qed

lemma run_twenty:
  assumes "length xs = 20"
  shows "run_operations parse build (map (answered u) xs)
           = [u \<mapsto> concat (map exchange (drop 15 xs))]"
proof -
  from assms have "xs \<noteq> []" by auto
  from foldl_answered [OF this, of parse build Map.empty u]
  have "run_operations parse build (map (answered u) xs)
          = [u \<mapsto> last_n 10 (concat (map exchange xs))]"
    by (simp add: run_operations_def)
  moreover have "last_n 10 (concat (map exchange xs)) = concat (map exchange (drop 15 xs))"
    using drop_exchanges [of 15 xs] by (simp add: last_n_def length_exchanges assms)
  ultimately show ?thesis by simp
qed

section \<open>The bound on a context\<close>

text \<open>
  Claim C8. Whatever operations have run since the store was empty, every context holds
  at most 10 entries. The success path stores the last 10 of the old entries followed by
  the two new ones, so the oldest go first (the two appends and the cut are one step of
  the store, see C4). After 20 answered exchanges of one user the context is exactly the
  last 5 exchanges, 10 entries; it is the same whatever the 6 oldest exchanges were, so
  these cannot be recovered from the store.
\<close>

theorem contexts_keep_last_ten:
  "(\<forall>user h. run_operations parse build ops user = Some h \<longrightarrow> length h \<le> 10)
   \<and> update_context ctxs user_id user_message ai_response user_id
       = Some (last_n 10 ((case ctxs user_id of None \<Rightarrow> [] | Some h \<Rightarrow> h)
                          @ [\<lparr>turn_role = str ''user'', turn_text = user_message\<rparr>,
                             \<lparr>turn_role = str ''model'', turn_text = ai_response\<rparr>]))
   \<and> (length xs = 20 \<longrightarrow>
        run_operations parse build (map (answered user_id) xs)
          = [user_id \<mapsto> concat (map exchange (drop 15 xs))]
        \<and> length (concat (map exchange (drop 15 xs))) = 10)
   \<and> (length xs = 20 \<and> length ys = 20 \<and> drop 6 xs = drop 6 ys \<longrightarrow>
        run_operations parse build (map (answered user_id) xs)
          = run_operations parse build (map (answered user_id) ys))"
proof (intro conjI allI impI)
  fix user h
  assume "run_operations parse build ops user = Some h"
  then show "length h \<le> 10"
    by (simp add: run_operations_invariant)
next
  show "update_context ctxs user_id user_message ai_response user_id
       = Some (last_n 10 ((case ctxs user_id of None \<Rightarrow> [] | Some h \<Rightarrow> h)
                          @ [\<lparr>turn_role = str ''user'', turn_text = user_message\<rparr>,
                             \<lparr>turn_role = str ''model'', turn_text = ai_response\<rparr>]))"
    by (simp add: update_context_def)
next
  assume "length xs = 20"
  then show "run_operations parse build (map (answered user_id) xs)
          = [user_id \<mapsto> concat (map exchange (drop 15 xs))]"
    by (rule run_twenty)
next
  assume "length xs = 20"
  then show "length (concat (map exchange (drop 15 xs))) = 10"
    by (simp add: length_exchanges)
next
  assume a: "length xs = 20 \<and> length ys = 20 \<and> drop 6 xs = drop 6 ys"
  then have "drop 9 (drop 6 xs) = drop 9 (drop 6 ys)" by simp
  then have "drop 15 xs = drop 15 ys" by simp
  with a show "run_operations parse build (map (answered user_id) xs)
          = run_operations parse build (map (answered user_id) ys)"
    by (simp add: run_twenty)
qed

lemma twenty_value:
  "length twenty = 20"
  "drop 15 twenty = [(str ''savol 16'', str ''javob 16''), (str ''savol 17'', str ''javob 17''),
     (str ''savol 18'', str ''javob 18''), (str ''savol 19'', str ''javob 19''), (str ''savol 20'', str ''javob 20'')]"
  "length (other_six @ drop 6 twenty) = 20"
  "drop 6 (other_six @ drop 6 twenty) = drop 6 twenty"
  "take 6 (other_six @ drop 6 twenty) \<noteq> take 6 twenty"
  by (simp_all add: twenty_def other_six_def dec_digits.simps digit_char_def str_def)

theorem contexts_keep_last_ten_witness:
  "length twenty = 20
   \<and> run_operations example_parse example_prompt (map (answered 1) twenty) 1
       = Some [\<lparr>turn_role = str ''user'', turn_text = str ''savol 16''\<rparr>,
               \<lparr>turn_role = str ''model'', turn_text = str ''javob 16''\<rparr>,
               \<lparr>turn_role = str ''user'', turn_text = str ''savol 17''\<rparr>,
               \<lparr>turn_role = str ''model'', turn_text = str ''javob 17''\<rparr>,
               \<lparr>turn_role = str ''user'', turn_text = str ''savol 18''\<rparr>,
               \<lparr>turn_role = str ''model'', turn_text = str ''javob 18''\<rparr>,
               \<lparr>turn_role = str ''user'', turn_text = str ''savol 19''\<rparr>,
               \<lparr>turn_role = str ''model'', turn_text = str ''javob 19''\<rparr>,
               \<lparr>turn_role = str ''user'', turn_text = str ''savol 20''\<rparr>,
               \<lparr>turn_role = str ''model'', turn_text = str ''javob 20''\<rparr>]
   \<and> length (other_six @ drop 6 twenty) = 20
   \<and> take 6 (other_six @ drop 6 twenty) \<noteq> take 6 twenty
   \<and> run_operations example_parse example_prompt (map (answered 1) (other_six @ drop 6 twenty))
       = run_operations example_parse example_prompt (map (answered 1) twenty)"
proof -
  note inst = contexts_keep_last_ten [of example_parse example_prompt "[]" Map.empty 1 "[]" "[]"
      twenty "other_six @ drop 6 twenty"]
  from inst [THEN conjunct2, THEN conjunct2, THEN conjunct1, rule_format, OF twenty_value(1)]
  have "run_operations example_parse example_prompt (map (answered 1) twenty)
       = [1 \<mapsto> concat (map exchange (drop 15 twenty))]"
    by (rule conjunct1)
  then have "run_operations example_parse example_prompt (map (answered 1) twenty) 1
       = Some (concat (map exchange (drop 15 twenty)))"
    by simp
  then have a: "run_operations example_parse example_prompt (map (answered 1) twenty) 1
       = Some [\<lparr>turn_role = str ''user'', turn_text = str ''savol 16''\<rparr>,
               \<lparr>turn_role = str ''model'', turn_text = str ''javob 16''\<rparr>,
               \<lparr>turn_role = str ''user'', turn_text = str ''savol 17''\<rparr>,
               \<lparr>turn_role = str ''model'', turn_text = str ''javob 17''\<rparr>,
               \<lparr>turn_role = str ''user'', turn_text = str ''savol 18''\<rparr>,
               \<lparr>turn_role = str ''model'', turn_text = str ''javob 18''\<rparr>,
               \<lparr>turn_role = str ''user'', turn_text = str ''savol 19''\<rparr>,
               \<lparr>turn_role = str ''model'', turn_text = str ''javob 19''\<rparr>,
               \<lparr>turn_role = str ''user'', turn_text = str ''savol 20''\<rparr>,
               \<lparr>turn_role = str ''model'', turn_text = str ''javob 20''\<rparr>]"
    by (simp only: twenty_value(2)) (simp add: exchange_def strip_def isspace_def str_def)
  have h: "length (other_six @ drop 6 twenty) = 20 \<and> length twenty = 20
      \<and> drop 6 (other_six @ drop 6 twenty) = drop 6 twenty"
    by (intro conjI twenty_value)
  from inst [THEN conjunct2, THEN conjunct2, THEN conjunct2]
  have "length twenty = 20 \<and> length (other_six @ drop 6 twenty) = 20
      \<and> drop 6 twenty = drop 6 (other_six @ drop 6 twenty) \<longrightarrow>
     run_operations example_parse example_prompt (map (answered 1) twenty)
       = run_operations example_parse example_prompt (map (answered 1) (other_six @ drop 6 twenty))" .
  with twenty_value(1,3,4)
  have b: "run_operations example_parse example_prompt (map (answered 1) (other_six @ drop 6 twenty))
       = run_operations example_parse example_prompt (map (answered 1) twenty)"
    by metis
  from a b twenty_value(1,3,5) show ?thesis by blast
qed

section \<open>The shape of a context, and clearing\<close>

text \<open>
  Claim C10. Whatever calls of \<open>get_response\<close> (successful or not) and of
  \<open>clear_user_context\<close> have run since the store was empty, every stored context has
  even length and its entries have the roles user, model, user, model, ... from the
  first. \<open>clear_user_context\<close> removes the entry of its user, leaves every other user's
  context as it was, and changes nothing when the user has no entry.
\<close>

theorem contexts_alternate_and_clear:
  "(\<forall>user h. run_operations parse build ops user = Some h \<longrightarrow>
      even (length h)
      \<and> (\<forall>i<length h. turn_role (h ! i) = (if even i then str ''user'' else str ''model'')))
   \<and> clear_user_context ctxs user_id user_id = None
   \<and> (\<forall>other. other \<noteq> user_id \<longrightarrow> clear_user_context ctxs user_id other = ctxs other)
   \<and> (ctxs user_id = None \<longrightarrow> clear_user_context ctxs user_id = ctxs)"
proof (intro conjI allI impI)
  fix user h
  assume "run_operations parse build ops user = Some h"
  then have alt: "alternating h" by (simp add: run_operations_invariant)
  then show "even (length h)" by (rule alternating_even)
  fix i assume "i < length h"
  with alt show "turn_role (h ! i) = (if even i then str ''user'' else str ''model'')"
    by (rule alternating_roles)
next
  show "clear_user_context ctxs user_id user_id = None"
    by (cases "ctxs user_id") (auto simp: clear_user_context_def)
next
  fix other assume "other \<noteq> user_id"
  then show "clear_user_context ctxs user_id other = ctxs other"
    by (simp add: clear_user_context_def)
next
  assume "ctxs user_id = None"
  then show "clear_user_context ctxs user_id = ctxs"
    by (auto simp: clear_user_context_def)
qed

lemma three_operations_value:
  "run_operations example_parse example_prompt three_operations 2
     = Some [\<lparr>turn_role = str ''user'', turn_text = str ''narx''\<rparr>,
             \<lparr>turn_role = str ''model'', turn_text = str ''150 000''\<rparr>]"
  by (simp add: run_operations_def three_operations_def apply_answered exchange_def
      clear_user_context_def last_n_def strip_def isspace_def str_def)

theorem contexts_alternate_and_clear_witness:
  "run_operations example_parse example_prompt three_operations 2
     = Some [\<lparr>turn_role = str ''user'', turn_text = str ''narx''\<rparr>,
             \<lparr>turn_role = str ''model'', turn_text = str ''150 000''\<rparr>]
   \<and> even (length [\<lparr>turn_role = str ''user'', turn_text = str ''narx''\<rparr>,
                     \<lparr>turn_role = str ''model'', turn_text = str ''150 000''\<rparr>])
   \<and> turn_role ([\<lparr>turn_role = str ''user'', turn_text = str ''narx''\<rparr>,
                  \<lparr>turn_role = str ''model'', turn_text = str ''150 000''\<rparr>] ! 1) = str ''model''
   \<and> (2::int) \<noteq> 1
   \<and> clear_user_context [1 \<mapsto> [], 2 \<mapsto> []] 1 2 = Some []
   \<and> clear_user_context [1 \<mapsto> [], 2 \<mapsto> []] 1 1 = None
   \<and> [2 \<mapsto> []] (1::int) = None
   \<and> clear_user_context [2 \<mapsto> []] 1 = [2 \<mapsto> []]"
proof -
  have v: "run_operations example_parse example_prompt three_operations 2
     = Some [\<lparr>turn_role = str ''user'', turn_text = str ''narx''\<rparr>,
             \<lparr>turn_role = str ''model'', turn_text = str ''150 000''\<rparr>]"
    by (simp add: three_operations_value)
  note a = contexts_alternate_and_clear [of example_parse example_prompt three_operations
      "[1 \<mapsto> [], 2 \<mapsto> []]" 1]
  note b = contexts_alternate_and_clear [of example_parse example_prompt three_operations
      "[2 \<mapsto> []]" 1]
  from a [THEN conjunct1, rule_format, OF v]
  have roles: "even (length [\<lparr>turn_role = str ''user'', turn_text = str ''narx''\<rparr>,
                     \<lparr>turn_role = str ''model'', turn_text = str ''150 000''\<rparr>])
   \<and> turn_role ([\<lparr>turn_role = str ''user'', turn_text = str ''narx''\<rparr>,
                  \<lparr>turn_role = str ''model'', turn_text = str ''150 000''\<rparr>] ! 1) = str ''model''"
    by simp
  from a [THEN conjunct2, THEN conjunct1]
  have gone: "clear_user_context [1 \<mapsto> [], 2 \<mapsto> []] 1 1 = None" .
  from a [THEN conjunct2, THEN conjunct2, THEN conjunct1, rule_format, of 2]
  have kept: "clear_user_context [1 \<mapsto> [], 2 \<mapsto> []] 1 2 = Some []"
    by simp
  from b [THEN conjunct2, THEN conjunct2, THEN conjunct2, rule_format]
  have noop: "clear_user_context [2 \<mapsto> []] 1 = [2 \<mapsto> []]"
    by simp
  from v roles gone kept noop show ?thesis by simp
qed

section \<open>Properties of the extraction\<close>

text \<open>
  Claim C2. Whenever the extraction fails (the model call raises, the response has no
  text, the stripped text has no opening or no closing brace, or the text between the
  braces does not parse), \<open>extract_search_params\<close> raises nothing and returns the
  fallback parameters: the search query is the utterance itself, every other field is
  empty, and \<open>is_product_search\<close> holds exactly when the utterance has at most 3
  whitespace-separated words. The utterance is any sequence of code points, and the
  words are separated by the whitespace of Unicode.
\<close>

theorem extraction_failure_falls_back:
  assumes "(\<exists>error_msg. generate user_message = Raises error_msg)
    \<or> generate user_message = Returns None
    \<or> (\<exists>t. generate user_message = Returns (Some t)
           \<and> (find (of_char CHR ''{'') (strip t) = - 1
               \<or> rfind (of_char CHR ''}'') (strip t) = - 1
               \<or> json_loads (slice (strip t) (find (of_char CHR ''{'') (strip t))
                                (rfind (of_char CHR ''}'') (strip t) + 1)) = None))"
  shows "extract_search_params generate json_loads user_message
    = \<lparr>search_query = Some user_message, translated_keywords = None,
       min_price = PyNone, max_price = PyNone, category_hint = None,
       is_product_search = (length (str_split user_message) \<le> 3)\<rparr>"
proof -
  from assms have "\<exists>e. try_extract generate json_loads user_message = Inl e"
    by (auto simp: try_extract_def Let_def)
  then show ?thesis
    by (auto simp: extract_search_params_def)
qed

theorem extraction_failure_falls_back_witness:
  "extraction_down bread_and_sugar = Raises (str ''503 Service Unavailable'')
   \<and> length (str_split bread_and_sugar) = 3
   \<and> extract_search_params extraction_down no_json bread_and_sugar
       = \<lparr>search_query = Some bread_and_sugar, translated_keywords = None,
          min_price = PyNone, max_price = PyNone, category_hint = None,
          is_product_search = True\<rparr>
   \<and> length (str_split (str ''televizor'')) = 1
   \<and> is_product_search (extract_search_params extraction_down no_json (str ''televizor''))
       = True
   \<and> chatty (str ''Do'kon qayerda joylashgan ekan?'')
       = Returns (Some (str ''Kechirasiz, tushunmadim.''))
   \<and> find (of_char CHR ''{'') (strip (str ''Kechirasiz, tushunmadim.'')) = - 1
   \<and> length (str_split (str ''Do'kon qayerda joylashgan ekan?'')) = 4
   \<and> is_product_search (extract_search_params chatty no_json
         (str ''Do'kon qayerda joylashgan ekan?'')) = False"
proof -
  have down: "extraction_down m = Raises (str ''503 Service Unavailable'')" for m
    by (simp add: extraction_down_def)
  have three: "length (str_split bread_and_sugar) = 3"
    by (simp add: str_split_def isspace_def bread_and_sugar_def)
  have one: "length (str_split (str ''televizor'')) = 1"
    by (simp add: str_split_def isspace_def str_def)
  have reply: "chatty (str ''Do'kon qayerda joylashgan ekan?'')
      = Returns (Some (str ''Kechirasiz, tushunmadim.''))"
    by (simp add: chatty_def)
  have brace: "find (of_char CHR ''{'') (strip (str ''Kechirasiz, tushunmadim.'')) = - 1"
    by (simp add: find_def strip_def isspace_def str_def)
  have four: "length (str_split (str ''Do'kon qayerda joylashgan ekan?'')) = 4"
    by (simp add: str_split_def isspace_def str_def)
  have "extract_search_params extraction_down no_json bread_and_sugar
       = \<lparr>search_query = Some bread_and_sugar, translated_keywords = None,
          min_price = PyNone, max_price = PyNone, category_hint = None,
          is_product_search = (length (str_split bread_and_sugar) \<le> 3)\<rparr>"
    using down by (intro extraction_failure_falls_back) blast
  moreover
  have "extract_search_params extraction_down no_json (str ''televizor'')
       = \<lparr>search_query = Some (str ''televizor''), translated_keywords = None,
          min_price = PyNone, max_price = PyNone, category_hint = None,
          is_product_search = (length (str_split (str ''televizor'')) \<le> 3)\<rparr>"
    using down by (intro extraction_failure_falls_back) blast
  moreover from reply brace
  have "extract_search_params chatty no_json (str ''Do'kon qayerda joylashgan ekan?'')
       = \<lparr>search_query = Some (str ''Do'kon qayerda joylashgan ekan?''),
          translated_keywords = None,
          min_price = PyNone, max_price = PyNone, category_hint = None,
          is_product_search
            = (length (str_split (str ''Do'kon qayerda joylashgan ekan?'')) \<le> 3)\<rparr>"
    by (intro extraction_failure_falls_back) blast
  ultimately show ?thesis
    using down reply brace one three four by simp
qed

section \<open>Properties of the search\<close>



text \<open>
  Claim C6. For parameters whose \<open>is_product_search\<close> is false, the search returns the
  empty product list paired with false, and makes no lookup in the catalog.
\<close>

theorem no_lookup_without_product_search:
  assumes "\<not> is_product_search params"
  shows "retrieve lower search_products params = (([], False), [])"
  using assms by (simp add: retrieve_def)

theorem no_lookup_without_product_search_witness:
  "\<not> is_product_search (kettle_params\<lparr>is_product_search := False\<rparr>)
   \<and> retrieve example_lower example_catalog (kettle_params\<lparr>is_product_search := False\<rparr>)
       = (([], False), [])"
  using no_lookup_without_product_search [of "kettle_params\<lparr>is_product_search := False\<rparr>"
      example_lower example_catalog]
  by simp


lemma example_catalog_distinct:
  "distinct (map pid (example_catalog query lo hi limit))"
  by (simp add: example_catalog_def kettle_def cup_def bowl_def)

lemma example_words:
  "example_lower kettle_ru \<noteq> example_lower (str ''choynak'')"
  "example_lower kettle_ru_capital = example_lower kettle_ru"
  "kettle_ru \<noteq> []" "kettle_ru_capital \<noteq> []" "str ''choynak'' \<noteq> []"
  "kettle_ru \<noteq> str ''choynak''" "kettle_ru_capital \<noteq> kettle_ru"
  by (simp_all add: example_lower_def kettle_ru_def kettle_ru_capital_def str_def)



text \<open>
  Claim C7. When the translated keyword is absent or empty, or is equal to the search
  query up to the case of the letters (equal after \<open>lower\<close>, whatever the script), the
  search does what it does with the translated keyword omitted: a product search makes
  the one lookup with the search query and returns its result as it is, each product as
  many times as the catalog returned it, so with no identifier twice when the catalog
  returned none twice.
\<close>

theorem same_keyword_single_lookup:
  assumes "translated_keywords params = None \<or> translated_keywords params = Some []
    \<or> (\<exists>t q. translated_keywords params = Some t \<and> search_query params = Some q
              \<and> lower t = lower q)"
  shows "retrieve lower search_products params
           = retrieve lower search_products (params\<lparr>translated_keywords := None\<rparr>)
    \<and> (is_product_search params \<longrightarrow>
          snd (retrieve lower search_products params)
            = [(search_query params, min_price params, max_price params, 5)]
          \<and> fst (fst (retrieve lower search_products params))
            = search_products (search_query params) (min_price params) (max_price params) 5)
    \<and> (distinct (map pid (search_products (search_query params) (min_price params)
                            (max_price params) 5))
        \<longrightarrow> distinct (map pid (fst (fst (retrieve lower search_products params)))))"
  using assms
  by (auto simp: retrieve_def Let_def split: option.splits)

theorem same_keyword_single_lookup_witness:
  "translated_keywords same_word_params = Some kettle_ru_capital
   \<and> search_query same_word_params = Some kettle_ru
   \<and> kettle_ru_capital \<noteq> kettle_ru
   \<and> example_lower kettle_ru_capital = example_lower kettle_ru
   \<and> is_product_search same_word_params
   \<and> snd (retrieve example_lower example_catalog same_word_params)
       = [(Some kettle_ru, PyNone, PyNone, 5)]
   \<and> fst (fst (retrieve example_lower example_catalog same_word_params)) = [bowl, kettle]
   \<and> retrieve example_lower example_catalog same_word_params
       = retrieve example_lower example_catalog (same_word_params\<lparr>translated_keywords := None\<rparr>)
   \<and> distinct (map pid (fst (fst (retrieve example_lower example_catalog same_word_params))))"
proof -
  have t: "translated_keywords same_word_params = Some kettle_ru_capital"
    and q: "search_query same_word_params = Some kettle_ru"
    and p: "is_product_search same_word_params"
    and bounds: "min_price same_word_params = PyNone" "max_price same_word_params = PyNone"
    by (simp_all add: same_word_params_def)
  note l = example_words(2)
  from t q l have "translated_keywords same_word_params = None
    \<or> translated_keywords same_word_params = Some []
    \<or> (\<exists>t q. translated_keywords same_word_params = Some t
              \<and> search_query same_word_params = Some q
              \<and> example_lower t = example_lower q)"
    by blast
  note inst = same_keyword_single_lookup [OF this, of example_catalog]
  from inst [THEN conjunct2, THEN conjunct1, rule_format, OF p]
  have calls: "snd (retrieve example_lower example_catalog same_word_params)
       = [(Some kettle_ru, PyNone, PyNone, 5)]"
    and products: "fst (fst (retrieve example_lower example_catalog same_word_params))
       = [bowl, kettle]"
    using example_words by (simp_all add: q bounds example_catalog_def)
  from inst [THEN conjunct2, THEN conjunct2, rule_format, OF example_catalog_distinct]
  have d: "distinct (map pid (fst (fst (retrieve example_lower example_catalog
      same_word_params))))" .
  from inst [THEN conjunct1] t q l p calls products d example_words(7) show ?thesis by blast
qed

section \<open>Properties of the price formatting\<close>

lemma excess_bits_bounds:
  "a div 2 ^ excess_bits a < 2 ^ 53 \<and> (0 < excess_bits a \<longrightarrow> 2 ^ 52 \<le> a div 2 ^ excess_bits a)"
proof (induction a rule: excess_bits.induct)
  case (1 a)
  show ?case
  proof (cases "a < 2 ^ 53")
    case True
    then show ?thesis by (simp add: excess_bits.simps [of a])
  next
    case False
    then have e: "excess_bits a = Suc (excess_bits (a div 2))"
      by (simp add: excess_bits.simps [of a])
    have d: "a div 2 ^ Suc k = a div 2 div 2 ^ k" for k
      by (simp add: div_mult2_eq)
    from False have big: "2 ^ 52 \<le> a div 2" by simp
    from "1.IH" [OF False] big show ?thesis
      unfolding e d by (cases "excess_bits (a div 2)") auto
  qed
qed


lemma excess_bits_zero: "a < 2 ^ 53 \<Longrightarrow> excess_bits a = 0"
  by (simp add: excess_bits.simps [of a])

lemma excess_bits_window:
  assumes "2 ^ (52 + k) \<le> a" and "a < 2 ^ (53 + k)" and "0 < k"
  shows "excess_bits a = k"
proof -
  let ?e = "excess_bits a"
  from excess_bits_bounds [of a] have q: "a div 2 ^ ?e < 2 ^ 53"
    and low: "0 < ?e \<Longrightarrow> 2 ^ 52 \<le> a div 2 ^ ?e" by simp_all
  have pos: "0 < ?e"
  proof (rule ccontr)
    assume "\<not> 0 < ?e"
    with q have "a < 2 ^ 53" by simp
    also have "(2::nat) ^ 53 \<le> 2 ^ (52 + k)" using assms(3) by (intro power_increasing) simp_all
    finally show False using assms(1) by simp
  qed
  from q have "a < 2 ^ 53 * 2 ^ ?e"
    by (simp add: div_less_iff_less_mult)
  with assms(1) have "(2::nat) ^ (52 + k) < 2 ^ (53 + ?e)"
    by (simp add: power_add)
  then have up: "52 + k < 53 + ?e" by (simp only: power_strict_increasing_iff) 
  from low [OF pos] have "2 ^ 52 * 2 ^ ?e \<le> a"
    by (simp add: less_eq_div_iff_mult_less_eq)
  with assms(2) have "(2::nat) ^ (52 + ?e) < 2 ^ (53 + k)"
    by (simp add: power_add)
  then have "52 + ?e < 53 + k" by (simp only: power_strict_increasing_iff)
  with up show ?thesis by simp
qed


lemma round_half_even_range:
  "m div 2 ^ k \<le> round_half_even m k \<and> round_half_even m k \<le> m div 2 ^ k + 1"
  by (simp add: round_half_even_def Let_def)

text \<open>Below \<open>2 ^ 1023\<close> nothing overflows.\<close>

lemma no_overflow_small:
  assumes "a < 2 ^ 1023"
  shows "round_half_even a (excess_bits a) * 2 ^ excess_bits a < 2 ^ 1024"
proof (cases "0 < excess_bits a")
  case False
  with assms show ?thesis by (simp add: round_half_even_def)
next
  case True
  let ?e = "excess_bits a"
  from excess_bits_bounds [of a] True have q: "a div 2 ^ ?e < 2 ^ 53"
    and low: "2 ^ 52 \<le> a div 2 ^ ?e" by simp_all
  from low have "2 ^ 52 * 2 ^ ?e \<le> a"
    by (simp add: less_eq_div_iff_mult_less_eq)
  with assms have "(2::nat) ^ (52 + ?e) < 2 ^ 1023"
    by (simp add: power_add)
  then have "52 + ?e < 1023" by (simp only: power_strict_increasing_iff)
  then have e: "53 + ?e \<le> 1023" by simp
  from round_half_even_range [of a ?e] q have "round_half_even a ?e \<le> 2 ^ 53" by simp
  then have "round_half_even a ?e * 2 ^ ?e \<le> 2 ^ 53 * 2 ^ ?e" by simp
  also have "\<dots> = (2::nat) ^ (53 + ?e)" by (simp add: power_add)
  also from e have "\<dots> \<le> (2::nat) ^ 1023" by (intro power_increasing) simp_all
  also have "\<dots> < (2::nat) ^ 1024" by simp
  finally show ?thesis .
qed

text \<open>From \<open>2 ^ 1024\<close> on everything overflows.\<close>

lemma overflow_large:
  assumes "2 ^ 1024 \<le> a"
  shows "2 ^ 1024 \<le> round_half_even a (excess_bits a) * 2 ^ excess_bits a"
proof -
  let ?e = "excess_bits a"
  from excess_bits_bounds [of a] have q: "a div 2 ^ ?e < 2 ^ 53"
    and low: "0 < ?e \<Longrightarrow> 2 ^ 52 \<le> a div 2 ^ ?e" by simp_all
  from q have "a < 2 ^ 53 * 2 ^ ?e"
    by (simp add: div_less_iff_less_mult)
  with assms have "(2::nat) ^ 1024 < 2 ^ (53 + ?e)"
    by (simp add: power_add)
  then have "1024 < 53 + ?e" by (simp only: power_strict_increasing_iff)
  then have pos: "0 < ?e" and e: "1024 \<le> 52 + ?e" by simp_all
  have "(2::nat) ^ 1024 \<le> 2 ^ (52 + ?e)" using e by (intro power_increasing) simp_all
  also have "\<dots> = 2 ^ 52 * 2 ^ ?e" by (simp add: power_add)
  also from low [OF pos] round_half_even_range [of a ?e]
  have "\<dots> \<le> round_half_even a ?e * 2 ^ ?e" by simp
  finally show ?thesis .
qed

text \<open>Between the two, the mantissa has 53 bits above bit 971 and the rounding decides.\<close>

lemma overflow_top_binade:
  assumes "2 ^ 1023 \<le> a" and "a < 2 ^ 1024"
  shows "2 ^ 1024 \<le> round_half_even a (excess_bits a) * 2 ^ excess_bits a
           \<longleftrightarrow> 2 ^ 1024 - 2 ^ 970 \<le> a"
proof -
  have e: "excess_bits a = 971"
    using assms by (intro excess_bits_window) simp_all
  define q where "q = a div 2 ^ 971"
  define r where "r = a mod 2 ^ 971"
  have a: "a = q * 2 ^ 971 + r" and r: "r < 2 ^ 971"
    by (simp_all add: q_def r_def)
  from a r assms have q: "q < 2 ^ 53" "2 ^ 52 \<le> q"
    by simp_all
  have rd: "round_half_even a 971 = (if r > 2 ^ 970 \<or> (r = 2 ^ 970 \<and> odd q) then q + 1 else q)"
    by (simp add: round_half_even_def Let_def q_def r_def)
  have "2 ^ 1024 \<le> round_half_even a 971 * 2 ^ 971 \<longleftrightarrow> 2 ^ 53 \<le> round_half_even a 971"
    by simp
  also have "\<dots> \<longleftrightarrow> q = 2 ^ 53 - 1 \<and> 2 ^ 970 \<le> r"
    using q by (auto simp: rd)
  also have "\<dots> \<longleftrightarrow> 2 ^ 1024 - 2 ^ 970 \<le> a"
    using q r by (auto simp: a)
  finally show ?thesis by (simp add: e)
qed


lemma int_to_float_overflow:
  "int_to_float n = Inl OverflowError \<longleftrightarrow> 2 ^ 1024 - 2 ^ 970 \<le> \<bar>n\<bar>"
proof -
  define a where "a = nat \<bar>n\<bar>"
  have "2 ^ 1024 \<le> round_half_even a (excess_bits a) * 2 ^ excess_bits a
          \<longleftrightarrow> 2 ^ 1024 - 2 ^ 970 \<le> a"
  proof -
    consider "a < 2 ^ 1023" | "2 ^ 1023 \<le> a" "a < 2 ^ 1024" | "2 ^ 1024 \<le> a"
      by linarith
    then show ?thesis
    proof cases
      case 1
      from no_overflow_small [OF 1] 1 show ?thesis by simp
    next
      case 2
      then show ?thesis by (rule overflow_top_binade)
    next
      case 3
      from overflow_large [OF 3] 3 show ?thesis by simp
    qed
  qed
  moreover have "2 ^ 1024 - 2 ^ 970 \<le> a \<longleftrightarrow> 2 ^ 1024 - 2 ^ 970 \<le> \<bar>n\<bar>"
    by (simp add: a_def le_nat_iff)
  ultimately show ?thesis
    by (simp add: int_to_float_def Let_def a_def)
qed

lemma int_to_float_exact:
  assumes "\<bar>n\<bar> < 2 ^ 53"
  shows "int_to_float n = Inr (Finite (n < 0) (nat \<bar>n\<bar>) 0)"
proof -
  from assms have "nat \<bar>n\<bar> < 2 ^ 53" by simp
  then show ?thesis
    by (simp add: int_to_float_def Let_def excess_bits_zero round_half_even_def)
qed

text \<open>The digits in groups of three.\<close>

lemma digit_char_digit: "d < 10 \<Longrightarrow> digit_char d \<in> set (str ''0123456789'')"
  unfolding digit_char_def by (rule nth_mem) (simp add: str_def)

lemma dec_digits_digits: "set (dec_digits n) \<subseteq> set (str ''0123456789'')"
proof (induction n rule: dec_digits.induct)
  case (1 n)
  show ?case
  proof (cases "n < 10")
    case True
    with digit_char_digit [of n] show ?thesis by (simp add: dec_digits.simps [of n])
  next
    case False
    with "1.IH" digit_char_digit [of "n mod 10"] show ?thesis
      by (simp add: dec_digits.simps [of n])
  qed
qed

lemma replace_commas_digits: "set s \<subseteq> set (str ''0123456789'') \<Longrightarrow> replace_commas s = s"
  unfolding replace_commas_def by (induction s) (auto simp: str_def)

lemma replace_commas_append [simp]:
  "replace_commas (xs @ ys) = replace_commas xs @ replace_commas ys"
  by (simp add: replace_commas_def)

lemma dec_digits_nonempty: "dec_digits n \<noteq> []"
  by (simp add: dec_digits.simps [of n])

lemma length_dec_digits_small:
  assumes "n < 1000"
  shows "length (dec_digits n) \<le> 3"
proof (cases "n < 10")
  case True
  then show ?thesis by (subst dec_digits.simps) simp
next
  case False
  then have n: "dec_digits n = dec_digits (n div 10) @ [digit_char (n mod 10)]"
    by (subst dec_digits.simps) simp
  show ?thesis
  proof (cases "n div 10 < 10")
    case True
    then have "length (dec_digits (n div 10)) = 1" by (subst dec_digits.simps) simp
    with n show ?thesis by simp
  next
    case False
    then have m: "dec_digits (n div 10)
        = dec_digits (n div 10 div 10) @ [digit_char (n div 10 mod 10)]"
      by (subst dec_digits.simps) simp
    from assms have "n div 10 div 10 < 10" by simp
    then have "length (dec_digits (n div 10 div 10)) = 1" by (subst dec_digits.simps) simp
    with n m show ?thesis by simp
  qed
qed

lemma group3_short: "length ds \<le> 3 \<Longrightarrow> group3 ds = ds"
  by (cases ds rule: group3.cases) simp_all

lemma thousand_digits:
  fixes n :: nat
  shows "n div 10 div 10 div 10 = n div 1000"
    and "n div 10 div 10 mod 10 = n mod 1000 div 100"
    and "n div 10 mod 10 = n mod 1000 div 10 mod 10"
    and "n mod 10 = n mod 1000 mod 10"
proof -
  show "n div 10 div 10 div 10 = n div 1000"
    by (simp add: div_mult2_eq [symmetric])
  have "n mod 1000 div 100 = n mod (100 * 10) div 100" by simp
  also have "\<dots> = n div 100 mod 10" by (simp only: mod_mult2_eq)
  finally show "n div 10 div 10 mod 10 = n mod 1000 div 100"
    by (simp add: div_mult2_eq [symmetric])
  have "n mod 1000 div 10 = n mod (10 * 100) div 10" by simp
  also have "\<dots> = n div 10 mod 100" by (simp only: mod_mult2_eq)
  finally have "n mod 1000 div 10 mod 10 = n div 10 mod 100 mod 10" by simp
  also have "\<dots> = n div 10 mod 10" by (simp add: mod_mod_cancel)
  finally show "n div 10 mod 10 = n mod 1000 div 10 mod 10" by simp
  show "n mod 10 = n mod 1000 mod 10"
    by (simp add: mod_mod_cancel)
qed

lemma dec_digits_thousand:
  assumes "1000 \<le> n"
  shows "dec_digits n = dec_digits (n div 1000) @ pad3 (n mod 1000)"
proof -
  from assms have big: "\<not> n < 10" "\<not> n div 10 < 10" "\<not> n div 10 div 10 < 10" by simp_all
  have e1: "dec_digits n = dec_digits (n div 10) @ [digit_char (n mod 10)]"
    using big(1) by (subst dec_digits.simps) simp
  have e2: "dec_digits (n div 10) = dec_digits (n div 10 div 10) @ [digit_char (n div 10 mod 10)]"
    using big(2) by (subst dec_digits.simps) simp
  have e3: "dec_digits (n div 10 div 10)
      = dec_digits (n div 10 div 10 div 10) @ [digit_char (n div 10 div 10 mod 10)]"
    using big(3) by (subst dec_digits.simps) simp
  have "dec_digits n = dec_digits (n div 10 div 10 div 10)
      @ [digit_char (n div 10 div 10 mod 10), digit_char (n div 10 mod 10), digit_char (n mod 10)]"
    by (simp only: e1 e2 e3 append_assoc append.simps)
  also have "\<dots> = dec_digits (n div 1000) @ pad3 (n mod 1000)"
    by (simp only: thousand_digits [symmetric] pad3_def)
  finally show ?thesis .
qed

lemma thousands_snoc3:
  "xs \<noteq> [] \<Longrightarrow> thousands (xs @ [a, b, c]) = thousands xs @ of_char CHR '','' # [a, b, c]"
  by (cases "rev xs") (simp_all add: thousands_def)

lemma pad3_digits: "n < 1000 \<Longrightarrow> set (pad3 n) \<subseteq> set (str ''0123456789'')"
  using digit_char_digit [of "n div 100"] digit_char_digit [of "n div 10 mod 10"]
    digit_char_digit [of "n mod 10"]
  by (simp add: pad3_def)

lemma thousands_short: "length ds \<le> 3 \<Longrightarrow> thousands ds = ds"
  by (simp add: thousands_def group3_short)

lemma spaced_thousands_correct: "replace_commas (thousands (dec_digits n)) = spaced_thousands n"
proof (induction n rule: spaced_thousands.induct)
  case (1 n)
  show ?case
  proof (cases "n < 1000")
    case True
    then have "spaced_thousands n = dec_digits n"
      by (subst spaced_thousands.simps) simp
    with True show ?thesis
      by (simp add: thousands_short length_dec_digits_small
          replace_commas_digits [OF dec_digits_digits])
  next
    case False
    then have big: "1000 \<le> n" by simp
    have "n mod 1000 < 1000" by simp
    then have pad: "replace_commas (pad3 (n mod 1000)) = pad3 (n mod 1000)"
      by (intro replace_commas_digits pad3_digits)
    have "thousands (dec_digits n)
        = thousands (dec_digits (n div 1000)) @ of_char CHR '','' # pad3 (n mod 1000)"
      unfolding dec_digits_thousand [OF big] pad3_def
      by (rule thousands_snoc3) (rule dec_digits_nonempty)
    then have "replace_commas (thousands (dec_digits n))
        = replace_commas (thousands (dec_digits (n div 1000)))
          @ replace_commas (of_char CHR '','' # pad3 (n mod 1000))"
      by simp
    also have "replace_commas (of_char CHR '','' # pad3 (n mod 1000)) = str '' '' @ pad3 (n mod 1000)"
      using pad by (simp add: replace_commas_def str_def)
    finally have "replace_commas (thousands (dec_digits n))
        = spaced_thousands (n div 1000) @ str '' '' @ pad3 (n mod 1000)"
      using "1.IH" [OF False] by simp
    also from False have "\<dots> = spaced_thousands n"
      by (subst (2) spaced_thousands.simps) simp
    finally show ?thesis .
  qed
qed

lemma format_f0_spaced: "replace_commas (format_f0 x) = spaced_number x"
  by (cases x) (simp_all add: spaced_thousands_correct, simp_all add: replace_commas_def str_def)

lemma int_to_float_cases:
  "int_to_float n = Inl OverflowError \<or> (\<exists>x. int_to_float n = Inr x)"
  by (simp add: int_to_float_def Let_def)

lemma py_float_errors:
  assumes "py_float parse v = Inl e"
  shows "e = ValueError \<or> e = TypeError \<or> (e = OverflowError \<and> (\<exists>n. v = PyInt n))"
proof (cases v)
  case (PyInt n)
  with int_to_float_cases [of n] assms show ?thesis by auto
qed (use assms in \<open>auto split: option.splits\<close>)

lemma price_text_format_price: "price_text parse v = format_price parse v"
proof -
  have "py_float parse (PyInt 0) = Inr (Finite False 0 0)"
    by (simp add: int_to_float_exact)
  then show ?thesis
    by (simp add: price_text_def format_price_def)
qed

section \<open>What format_price returns and when it raises\<close>

text \<open>
  Claim C9, as the code has it. For a price that is \<open>None\<close>, a bool, an int, a float, a
  string or an object that \<open>float()\<close> rejects, \<open>format_price\<close> raises in one case only:
  an int of magnitude \<open>2 ^ 1024 - 2 ^ 970\<close> or more, which \<open>float()\<close> cannot convert,
  raises OverflowError, and the handler does not catch it. For every other price it
  returns a string: when the price is truthy and converts to a float, the number rounded
  to no decimals (ties to even) with spaces between its groups of three digits, or
  \<open>inf\<close>, \<open>-inf\<close>, \<open>nan\<close> for a float that is not finite; and \<open>"0"\<close> otherwise.
  A nonzero int below \<open>2 ^ 53\<close> in magnitude is printed exactly. The price of a product
  line in the prompt (\<open>_format_products_context\<close>) is formatted in the same way.
\<close>

theorem format_price_raises_only_on_overflow:
  "format_price parse v =
     (if \<exists>n. v = PyInt n \<and> 2 ^ 1024 - 2 ^ 970 \<le> \<bar>n\<bar> then Inl OverflowError
      else if truthy v then
        (case py_float parse v of Inr x \<Rightarrow> Inr (spaced_number x) | Inl e \<Rightarrow> Inr (str ''0''))
      else Inr (str ''0''))
   \<and> (\<forall>n. v = PyInt n \<and> n \<noteq> 0 \<and> \<bar>n\<bar> < 2 ^ 53 \<longrightarrow>
         format_price parse v
           = Inr ((if n < 0 then str ''-'' else []) @ spaced_thousands (nat \<bar>n\<bar>)))
   \<and> price_text parse v = format_price parse v"
proof (intro conjI allI impI)
  show "format_price parse v =
     (if \<exists>n. v = PyInt n \<and> 2 ^ 1024 - 2 ^ 970 \<le> \<bar>n\<bar> then Inl OverflowError
      else if truthy v then
        (case py_float parse v of Inr x \<Rightarrow> Inr (spaced_number x) | Inl e \<Rightarrow> Inr (str ''0''))
      else Inr (str ''0''))"
  proof (cases "\<exists>n. v = PyInt n \<and> 2 ^ 1024 - 2 ^ 970 \<le> \<bar>n\<bar>")
    case True
    then obtain n where n: "v = PyInt n" "2 ^ 1024 - 2 ^ 970 \<le> \<bar>n\<bar>" by blast
    then have "n \<noteq> 0" by auto
    moreover from n(2) have "int_to_float n = Inl OverflowError"
      by (simp only: int_to_float_overflow)
    ultimately show ?thesis
      using True n(1) by (simp add: format_price_def)
  next
    case False
    show ?thesis
    proof (cases "truthy v")
      case no: False
      with False show ?thesis
        by (simp add: format_price_def nearest_int_def thousands_def dec_digits.simps
            digit_char_def replace_commas_def str_def)
    next
      case True
      show ?thesis
      proof (cases "py_float parse v")
        case (Inr x)
        with False True show ?thesis
          by (simp add: format_price_def format_f0_spaced)
      next
        case (Inl e)
        have "e \<noteq> OverflowError"
        proof
          assume "e = OverflowError"
          with py_float_errors [OF Inl] obtain n where n: "v = PyInt n" by auto
          with Inl \<open>e = OverflowError\<close> have "int_to_float n = Inl OverflowError" by simp
          then have "2 ^ 1024 - 2 ^ 970 \<le> \<bar>n\<bar>" by (simp only: int_to_float_overflow)
          with n False show False by blast
        qed
        with py_float_errors [OF Inl] have "e = ValueError \<or> e = TypeError" by blast
        with False True Inl show ?thesis
          by (auto simp: format_price_def)
      qed
    qed
  qed
next
  fix n
  assume "v = PyInt n \<and> n \<noteq> 0 \<and> \<bar>n\<bar> < 2 ^ 53"
  then have v: "v = PyInt n" and n: "n \<noteq> 0" "\<bar>n\<bar> < 2 ^ 53" by simp_all
  from n(2) have "py_float parse (PyInt n) = Inr (Finite (n < 0) (nat \<bar>n\<bar>) 0)"
    by (simp add: int_to_float_exact)
  with n(1) have "format_price parse (PyInt n)
      = Inr (replace_commas (format_f0 (Finite (n < 0) (nat \<bar>n\<bar>) 0)))"
    by (simp add: format_price_def del: format_f0.simps)
  also have "\<dots> = Inr (spaced_number (Finite (n < 0) (nat \<bar>n\<bar>) 0))"
    by (simp only: format_f0_spaced)
  also have "\<dots> = Inr ((if n < 0 then str ''-'' else []) @ spaced_thousands (nat \<bar>n\<bar>))"
    by (simp add: nearest_int_def)
  finally show "format_price parse v
           = Inr ((if n < 0 then str ''-'' else []) @ spaced_thousands (nat \<bar>n\<bar>))"
    by (simp only: v)
next
  show "price_text parse v = format_price parse v"
    by (rule price_text_format_price)
qed

theorem format_price_raises_only_on_overflow_witness:
  "format_price example_parse (PyInt 1234567) = Inr (str ''1 234 567'')
   \<and> format_price example_parse (PyInt (- 150000)) = Inr (str ''-150 000'')
   \<and> format_price example_parse (PyStr (str ''12.5'')) = Inr (str ''12'')
   \<and> format_price example_parse (PyStr (str ''abc'')) = Inr (str ''0'')
   \<and> format_price example_parse (PyStr []) = Inr (str ''0'')
   \<and> format_price example_parse PyNone = Inr (str ''0'')
   \<and> price_text example_parse (PyInt 1234567) = Inr (str ''1 234 567'')"
proof -
  have digits: "spaced_thousands 1234567 = str ''1 234 567''" "spaced_thousands 150000 = str ''150 000''"
    "spaced_thousands 12 = str ''12''"
    by (simp_all add: spaced_thousands.simps dec_digits.simps pad3_def digit_char_def str_def)
  note int = format_price_raises_only_on_overflow [THEN conjunct2, THEN conjunct1, rule_format]
  note any = format_price_raises_only_on_overflow [THEN conjunct1]
  note same = format_price_raises_only_on_overflow [THEN conjunct2, THEN conjunct2]
  have a: "format_price example_parse (PyInt 1234567) = Inr (str ''1 234 567'')"
    using int [of "PyInt 1234567" 1234567 example_parse] by (simp add: digits)
  have b: "format_price example_parse (PyInt (- 150000)) = Inr (str ''-150 000'')"
    using int [of "PyInt (- 150000)" "- 150000" example_parse] by (simp add: digits str_def)
  have c: "format_price example_parse (PyStr (str ''12.5'')) = Inr (str ''12'')"
    using any [of example_parse "PyStr (str ''12.5'')"]
    by (simp add: example_parse_def nearest_int_def round_half_even_def digits str_def)
  have d: "format_price example_parse (PyStr (str ''abc'')) = Inr (str ''0'')"
    using any [of example_parse "PyStr (str ''abc'')"] by (simp add: example_parse_def str_def)
  have e: "format_price example_parse (PyStr []) = Inr (str ''0'')"
    using any [of example_parse "PyStr []"] by simp
  have f: "format_price example_parse PyNone = Inr (str ''0'')"
    using any [of example_parse PyNone] by simp
  from same [of example_parse "PyInt 1234567"] a
  have g: "price_text example_parse (PyInt 1234567) = Inr (str ''1 234 567'')" by simp
  from a b c d e f g show ?thesis by simp
qed

text \<open>
  The int \<open>2 ^ 1024\<close> is truthy, \<open>float()\<close> raises OverflowError on it, and the handler
  catches ValueError and TypeError only.
\<close>

theorem format_price_overflow_counterexample:
  "format_price example_parse (PyInt (2 ^ 1024)) = Inl OverflowError"
proof -
  have "(2::int) ^ 1024 - 2 ^ 970 \<le> \<bar>2 ^ 1024\<bar>" by simp
  then have "int_to_float (2 ^ 1024) = Inl OverflowError"
    by (simp only: int_to_float_overflow)
  then show ?thesis
    by (simp add: format_price_def)
qed

end
